theory Spec2Isabelle
  imports Main "HOL-Library.Sublist" "HOL-Library.Multiset"
begin

section \<open>Email finder: resolution, generation, verification and ranking\<close>

text \<open>
  A shallow embedding of the Go packages \<open>generator\<close>, \<open>resolver\<close>, \<open>verifier\<close> and
  \<open>service\<close> of the email finder.

  Go strings are byte sequences and are modelled as \<^typ>\<open>string\<close> (a list of 8-bit
  characters). \<open>len\<close>, indexing, \<open>strings.Split\<close>, \<open>strings.Contains\<close>,
  \<open>strings.HasPrefix\<close>, \<open>strings.HasSuffix\<close>, \<open>strings.TrimSuffix\<close> and
  \<open>strings.ReplaceAll\<close> work on bytes. A \<open>range\<close> loop over a string, \<open>strings.ToLower\<close>,
  \<open>strings.TrimSpace\<close> and \<open>strings.Fields\<close> work on the runes that the bytes encode in
  UTF-8, with the replacement rune for every byte that is not part of a valid encoding;
  the decoder and the encoder of package \<open>utf8\<close> are embedded. A rune is its code point, a
  natural number. The tables of package \<open>unicode\<close> are not part of the repository: what
  \<open>unicode.ToLower\<close>, \<open>unicode.IsLetter\<close>, \<open>unicode.IsDigit\<close> and \<open>unicode.IsSpace\<close> decide
  in their own code (the ASCII and Latin-1 ranges) is embedded, and the tables that they
  consult beyond are a parameter \<open>U\<close> of every function that reaches them. Every
  property is proved for every value of the tables; the closed examples are instances
  at tables that hold nothing.

  Everything outside the process is a parameter: the DNS resolver, the HTTP exchange and
  the subprocess run of the verification oracle, and the order in which the goroutines of
  a batch run.
\<close>

subsection \<open>Runes and UTF-8\<close>

text \<open>The tables of package \<open>unicode\<close>: the lower-case mapping \<open>unicode.To(unicode.LowerCase, r)\<close>,
  and the properties of being a letter, a decimal digit and white space.\<close>

record Unicode =
  To_LowerCase :: "nat \<Rightarrow> nat"
  Letter :: "nat \<Rightarrow> bool"
  Digit :: "nat \<Rightarrow> bool"
  White_Space :: "nat \<Rightarrow> bool"

definition RuneError :: nat where
  "RuneError = 65533"

text \<open>\<open>utf8.DecodeRuneInString\<close>: the first rune of a string and its width in bytes. A
  first byte below \<open>0x80\<close> is the rune; a first byte from \<open>0xC2\<close> to \<open>0xF4\<close> announces
  two, three or four bytes, of which the second lies in a range that depends on the
  first and the others from \<open>0x80\<close> to \<open>0xBF\<close>; everything else is the replacement rune, of
  width one.\<close>

definition DecodeRuneInString :: "string \<Rightarrow> nat \<times> nat" where
  "DecodeRuneInString s =
     (case s of
        [] \<Rightarrow> (RuneError, 0)
      | c0 # cs \<Rightarrow>
          (let s0 = (of_char c0 :: nat) in
           if s0 < 128 then (s0, 1)
           else if s0 < 194 \<or> 244 < s0 then (RuneError, 1)
           else
             (let sz = (if s0 < 224 then 2 else if s0 < 240 then 3 else (4::nat));
                  lo = (if s0 = 224 then 160 else if s0 = 240 then 144 else (128::nat));
                  hi = (if s0 = 237 then 159 else if s0 = 244 then 143 else (191::nat))
              in if length s < sz then (RuneError, 1)
                 else
                   (let b1 = (of_char (s ! 1) :: nat) in
                    if b1 < lo \<or> hi < b1 then (RuneError, 1)
                    else if sz \<le> 2 then ((s0 mod 32) * 64 + b1 mod 64, 2)
                    else
                      (let b2 = (of_char (s ! 2) :: nat) in
                       if b2 < 128 \<or> 191 < b2 then (RuneError, 1)
                       else if sz \<le> 3 then
                         ((s0 mod 16) * 4096 + (b1 mod 64) * 64 + b2 mod 64, 3)
                       else
                         (let b3 = (of_char (s ! 3) :: nat) in
                          if b3 < 128 \<or> 191 < b3 then (RuneError, 1)
                          else ((s0 mod 8) * 262144 + (b1 mod 64) * 4096 +
                                (b2 mod 64) * 64 + b3 mod 64, 4)))))))"

text \<open>What a \<open>range\<close> loop over a string sees: each rune, here with the bytes it was
  decoded from.\<close>

fun runes :: "string \<Rightarrow> (nat \<times> string) list" where
  "runes [] = []"
| "runes (c # cs) =
     (fst (DecodeRuneInString (c # cs)), take (snd (DecodeRuneInString (c # cs))) (c # cs)) #
     runes (drop (snd (DecodeRuneInString (c # cs)) - 1) cs)"

text \<open>\<open>utf8.AppendRune\<close>, which \<open>string(r)\<close> and \<open>WriteRune\<close> use: a surrogate and a
  value above \<open>0x10FFFF\<close> are encoded as the replacement rune.\<close>

definition EncodeRune :: "nat \<Rightarrow> string" where
  "EncodeRune r =
     (if r \<le> 127 then [char_of r]
      else if r \<le> 2047 then [char_of (192 + r div 64), char_of (128 + r mod 64)]
      else if r > 1114111 \<or> (55296 \<le> r \<and> r \<le> 57343) then
        [char_of (239::nat), char_of (191::nat), char_of (189::nat)]
      else if r \<le> 65535 then
        [char_of (224 + r div 4096), char_of (128 + (r div 64) mod 64), char_of (128 + r mod 64)]
      else [char_of (240 + r div 262144), char_of (128 + (r div 4096) mod 64),
            char_of (128 + (r div 64) mod 64), char_of (128 + r mod 64)])"

text \<open>\<open>unicode.IsLetter\<close>, \<open>unicode.IsDigit\<close>, \<open>unicode.IsSpace\<close> and \<open>unicode.ToLower\<close>: the
  ranges that the functions decide in their code, and the table beyond.\<close>

definition IsLetter :: "Unicode \<Rightarrow> nat \<Rightarrow> bool" where
  "IsLetter U r =
     (if r \<le> 127 then (65 \<le> r \<and> r \<le> 90) \<or> (97 \<le> r \<and> r \<le> 122) else Letter U r)"

definition IsDigit :: "Unicode \<Rightarrow> nat \<Rightarrow> bool" where
  "IsDigit U r = (if r \<le> 255 then 48 \<le> r \<and> r \<le> 57 else Digit U r)"

definition IsSpace :: "Unicode \<Rightarrow> nat \<Rightarrow> bool" where
  "IsSpace U r =
     (if r \<le> 255 then (9 \<le> r \<and> r \<le> 13) \<or> r = 32 \<or> r = 133 \<or> r = 160
      else White_Space U r)"

definition unicode_ToLower :: "Unicode \<Rightarrow> nat \<Rightarrow> nat" where
  "unicode_ToLower U r =
     (if r \<le> 127 then (if 65 \<le> r \<and> r \<le> 90 then r + 32 else r) else To_LowerCase U r)"

subsection \<open>Strings\<close>

text \<open>\<open>strings.ToLower\<close>: \<open>strings.Map(unicode.ToLower, s)\<close> writes the encoding of the image
  of every rune, and so the replacement rune for every invalid byte; the short cut for a
  string of ASCII bytes gives the same.\<close>

definition ToLower :: "Unicode \<Rightarrow> string \<Rightarrow> string" where
  "ToLower U s = concat (map (\<lambda>rc. EncodeRune (unicode_ToLower U (fst rc))) (runes s))"

text \<open>\<open>strings.TrimSpace\<close>: the string without the runes of white space at its start and
  at its end.\<close>

definition TrimSpace :: "Unicode \<Rightarrow> string \<Rightarrow> string" where
  "TrimSpace U s =
     concat (map snd (rev (dropWhile (\<lambda>rc. IsSpace U (fst rc))
       (rev (dropWhile (\<lambda>rc. IsSpace U (fst rc)) (runes s))))))"

text \<open>\<open>strings.HasPrefix\<close>, \<open>strings.HasSuffix\<close> and \<open>strings.TrimSuffix\<close>, as the
  library writes them: a length test and a comparison of the slice.\<close>

definition HasPrefix :: "string \<Rightarrow> string \<Rightarrow> bool" where
  "HasPrefix s p = (length p \<le> length s \<and> take (length p) s = p)"

definition HasSuffix :: "string \<Rightarrow> string \<Rightarrow> bool" where
  "HasSuffix s suf = (length suf \<le> length s \<and> drop (length s - length suf) s = suf)"

definition TrimSuffix :: "string \<Rightarrow> string \<Rightarrow> string" where
  "TrimSuffix s suf = (if HasSuffix s suf then take (length s - length suf) s else s)"

text \<open>\<open>strings.Split(s, sep)\<close> for a separator of one byte: the pieces between the
  separators, one piece more than there are separators.\<close>

fun Split :: "string \<Rightarrow> char \<Rightarrow> string list" where
  "Split [] sep = [[]]"
| "Split (c # cs) sep =
     (if c = sep then [] # Split cs sep
      else (case Split cs sep of
              [] \<Rightarrow> [[c]]
            | w # ws \<Rightarrow> (c # w) # ws))"

text \<open>\<open>strings.Contains(s, sep)\<close> for a separator of one byte.\<close>

definition Contains :: "string \<Rightarrow> char \<Rightarrow> bool" where
  "Contains s c = (c \<in> set s)"

text \<open>\<open>strings.Fields\<close>: the maximal runs of runes that are not white space.\<close>

fun fields_acc :: "Unicode \<Rightarrow> string \<Rightarrow> (nat \<times> string) list \<Rightarrow> string list" where
  "fields_acc U cur [] = (if cur = [] then [] else [cur])"
| "fields_acc U cur (rc # rest) =
     (if IsSpace U (fst rc) then (if cur = [] then fields_acc U [] rest else cur # fields_acc U [] rest)
      else fields_acc U (cur @ snd rc) rest)"

definition Fields :: "Unicode \<Rightarrow> string \<Rightarrow> string list" where
  "Fields U s = fields_acc U [] (runes s)"

subsection \<open>Errors and panics\<close>

text \<open>The errors that the functions return (each \<open>fmt.Errorf\<close> of the source is a
  constructor) and the two run-time panics that the code can reach: an index out of range
  and the dereference of a nil pointer.\<close>

datatype error =
    failed_to_create_request
  | failed_to_make_request
  | failed_to_read_response
  | failed_to_parse_response
  | failed_to_execute_CLI
  | failed_to_parse_CLI_output
  | panic_index_out_of_range
  | panic_nil_pointer_dereference

subsection \<open>Package verifier\<close>

record VerificationResult =
  Email :: string
  IsReachable :: string
  IsValid :: bool
  IsDeliverable :: bool
  Details :: "string \<rightharpoonup> bool"

text \<open>The struct \<open>apiResponse\<close> that the reply of the oracle is decoded into.\<close>

record apiResponse =
  Input :: string
  api_IsReachable :: string
  SMTP_IsDeliverable :: bool
  Syntax_IsValidSyntax :: bool
  MX_AcceptsMail :: bool

text \<open>What \<open>encoding/json\<close> makes of a payload: it decodes into the struct, or into a
  slice of the struct, or into neither.\<close>

datatype json_body = Object apiResponse | Array "apiResponse list" | Malformed

text \<open>Why a request did not complete: the timeout of the client passed, or any other
  failure of the transport.\<close>

datatype cause = Timeout | Transport

text \<open>What happens to one HTTP request of \<open>HTTPVerifier.VerifyEmail\<close>: the request cannot
  be built, \<open>client.Do\<close> fails, reading the body fails, or a status and a body arrive.\<close>

datatype http_exchange =
    NewRequestFailed
  | DoFailed cause
  | ReadFailed cause
  | Response nat json_body

text \<open>What happens to one run of the CLI binary: the deadline of the context passes, the
  process fails otherwise (it cannot start, or exits with an error), or it prints output.\<close>

datatype cli_run = DeadlineExceeded | ExecFailed | Output json_body

text \<open>The result that the verifiers build when a verification did not complete.\<close>

definition unknown_result :: "string \<Rightarrow> VerificationResult" where
  "unknown_result email =
     \<lparr>Email = email, IsReachable = ''unknown'', IsValid = False, IsDeliverable = False,
      Details = Map.empty\<rparr>"

text \<open>The result built from a decoded reply.\<close>

definition result_of :: "apiResponse \<Rightarrow> VerificationResult" where
  "result_of r =
     \<lparr>Email = Input r,
      IsReachable = api_IsReachable r,
      IsValid = (Syntax_IsValidSyntax r \<and> MX_AcceptsMail r),
      IsDeliverable = SMTP_IsDeliverable r,
      Details = [''syntax_valid'' \<mapsto> Syntax_IsValidSyntax r, ''mx_accepts'' \<mapsto> MX_AcceptsMail r]\<rparr>"

text \<open>\<open>HTTPVerifier.VerifyEmail\<close>. Marshalling the request body, a map with one string,
  cannot fail.\<close>

definition HTTP_VerifyEmail :: "http_exchange \<Rightarrow> string \<Rightarrow> error + VerificationResult" where
  "HTTP_VerifyEmail exchange email =
     (case exchange of
        NewRequestFailed \<Rightarrow> Inl failed_to_create_request
      | DoFailed _ \<Rightarrow> Inl failed_to_make_request
      | ReadFailed _ \<Rightarrow> Inl failed_to_read_response
      | Response status body \<Rightarrow>
          if status \<noteq> 200 then Inr (unknown_result email)
          else (case body of
                  Object r \<Rightarrow> Inr (result_of r)
                | Array responses \<Rightarrow>
                    (case responses of
                       [] \<Rightarrow> Inl failed_to_parse_response
                     | r # _ \<Rightarrow> Inr (result_of r))
                | Malformed \<Rightarrow> Inl failed_to_parse_response))"


text \<open>
  A batch starts one goroutine for each index; the goroutine verifies its email and
  writes \<open>results[idx]\<close>. The goroutines share nothing but the slice (each its own slot)
  and the semaphore, so a run of the batch is the sequence in which the goroutines do
  their work: the schedule, a list of indices. \<open>wg.Wait()\<close> returns when every goroutine is
  done, so a schedule of a batch of \<open>n\<close> emails holds each index below \<open>n\<close> once. The
  state of a run is the slice of results, nil at first, and the log of the emails that
  were given to the oracle. The world gives the goroutine of index \<open>idx\<close> the fate of its
  request.
\<close>

type_synonym batch_state = "VerificationResult option list \<times> string list"

text \<open>The body of a goroutine of \<open>HTTPVerifier.VerifyEmailsBatch\<close>: the result of
  \<open>VerifyEmail\<close>, or the unknown result when \<open>VerifyEmail\<close> returns an error.\<close>

definition HTTP_verify_or_unknown :: "http_exchange \<Rightarrow> string \<Rightarrow> VerificationResult" where
  "HTTP_verify_or_unknown exchange emailAddr =
     (case HTTP_VerifyEmail exchange emailAddr of
        Inl err \<Rightarrow> unknown_result emailAddr
      | Inr result \<Rightarrow> result)"

definition HTTP_task ::
  "(nat \<Rightarrow> string \<Rightarrow> http_exchange) \<Rightarrow> string list \<Rightarrow> batch_state \<Rightarrow> nat \<Rightarrow> batch_state" where
  "HTTP_task world emails st idx =
     (let emailAddr = emails ! idx;
          result = HTTP_verify_or_unknown (world idx emailAddr) emailAddr
      in ((fst st)[idx := Some result], snd st @ [emailAddr]))"

definition HTTP_VerifyEmailsBatch ::
  "(nat \<Rightarrow> string \<Rightarrow> http_exchange) \<Rightarrow> nat list \<Rightarrow> string list \<Rightarrow>
   (error + VerificationResult option list) \<times> string list" where
  "HTTP_VerifyEmailsBatch world schedule emails =
     (if length emails = 0 then (Inr [], [])
      else (let st = foldl (HTTP_task world emails) (replicate (length emails) None, []) schedule
            in (Inr (fst st), snd st)))"

text \<open>\<open>CLIVerifier.VerifyEmailsBatch\<close> has the verification inline: every failure of the
  run and of the decoding gives the unknown result.\<close>

definition CLI_verify_inline :: "cli_run \<Rightarrow> string \<Rightarrow> VerificationResult" where
  "CLI_verify_inline run emailAddr =
     (case run of
        DeadlineExceeded \<Rightarrow> unknown_result emailAddr
      | ExecFailed \<Rightarrow> unknown_result emailAddr
      | Output body \<Rightarrow>
          (case body of
             Object r \<Rightarrow> result_of r
           | _ \<Rightarrow> unknown_result emailAddr))"

definition CLI_task ::
  "(nat \<Rightarrow> string \<Rightarrow> cli_run) \<Rightarrow> string list \<Rightarrow> batch_state \<Rightarrow> nat \<Rightarrow> batch_state" where
  "CLI_task world emails st idx =
     (let emailAddr = emails ! idx;
          result = CLI_verify_inline (world idx emailAddr) emailAddr
      in ((fst st)[idx := Some result], snd st @ [emailAddr]))"

definition CLI_VerifyEmailsBatch ::
  "(nat \<Rightarrow> string \<Rightarrow> cli_run) \<Rightarrow> nat list \<Rightarrow> string list \<Rightarrow>
   (error + VerificationResult option list) \<times> string list" where
  "CLI_VerifyEmailsBatch world schedule emails =
     (if length emails = 0 then (Inr [], [])
      else (let st = foldl (CLI_task world emails) (replicate (length emails) None, []) schedule
            in (Inr (fst st), snd st)))"

text \<open>A schedule of a batch of \<open>n\<close> goroutines.\<close>

definition is_schedule :: "nat \<Rightarrow> nat list \<Rightarrow> bool" where
  "is_schedule n schedule = (distinct schedule \<and> set schedule = {0..<n})"

subsection \<open>Package generator\<close>

record EmailPattern =
  ep_Email :: string
  ep_Pattern :: string

text \<open>\<open>isValidEmailChar\<close>.\<close>

definition isValidEmailChar :: "Unicode \<Rightarrow> nat \<Rightarrow> bool" where
  "isValidEmailChar U char =
     (IsLetter U char \<or> IsDigit U char \<or> char = of_char (CHR ''.'') \<or> char = of_char (CHR ''_'') \<or>
      char = of_char (CHR ''-'') \<or> char = of_char (CHR ''+''))"

text \<open>\<open>isValidEmailFormat\<close>. Each loop that returns false at the first offending element
  is \<^const>\<open>list_all\<close> of the negated test; the loops over the local part and over
  each part of the domain are over their runes.\<close>

definition isValidEmailFormat :: "Unicode \<Rightarrow> string \<Rightarrow> bool" where
  "isValidEmailFormat U email =
     (if length email = 0 \<or> length email > 254 then False
      else (case Split email (CHR ''@'') of
              [local, domain] \<Rightarrow>
                if length local = 0 \<or> length local > 64 then False
                else if length domain = 0 \<or> length domain > 253 then False
                else if \<not> list_all (isValidEmailChar U) (map fst (runes local)) then False
                else if HasPrefix domain ''.'' \<or> HasSuffix domain ''.'' then False
                else (let domainParts = Split domain (CHR ''.'') in
                      if length domainParts < 2 then False
                      else list_all (\<lambda>part. length part \<noteq> 0 \<and>
                             list_all (\<lambda>char. \<not> (\<not> IsLetter U char \<and> \<not> IsDigit U char \<and>
                                              char \<noteq> of_char (CHR ''-'')))
                               (map fst (runes part)))
                             domainParts)
            | _ \<Rightarrow> False))"

text \<open>\<open>fmt.Sprintf("%d", i)\<close> for a number that is not negative.\<close>

fun Sprintf_d :: "nat \<Rightarrow> string" where
  "Sprintf_d n =
     (if n < 10 then [char_of (48 + n)] else Sprintf_d (n div 10) @ [char_of (48 + n mod 10)])"

text \<open>The twenty patterns of the literal that initialises \<open>patternList\<close>, as pairs of the
  email and the name of the pattern.\<close>

definition base_patterns ::
  "string \<Rightarrow> string \<Rightarrow> string \<Rightarrow> string \<Rightarrow> string \<Rightarrow> (string \<times> string) list" where
  "base_patterns firstName lastName firstInitial lastInitial domain =
     [(firstName @ ''.'' @ lastName @ ''@'' @ domain, ''firstname.lastname''),
      (firstName @ lastName @ ''@'' @ domain, ''firstnamelastname''),
      (firstInitial @ ''.'' @ lastName @ ''@'' @ domain, ''f.lastname''),
      (firstInitial @ lastName @ ''@'' @ domain, ''flastname''),
      (firstName @ ''.'' @ lastInitial @ ''@'' @ domain, ''firstname.l''),
      (firstName @ lastInitial @ ''@'' @ domain, ''firstnamel''),
      (firstName @ ''@'' @ domain, ''firstname''),
      (lastName @ ''@'' @ domain, ''lastname''),
      (lastName @ ''.'' @ firstName @ ''@'' @ domain, ''lastname.firstname''),
      (lastName @ firstName @ ''@'' @ domain, ''lastnamefirstname''),
      (lastInitial @ ''.'' @ firstName @ ''@'' @ domain, ''l.firstname''),
      (lastInitial @ firstName @ ''@'' @ domain, ''lfirstname''),
      (firstInitial @ ''_'' @ lastName @ ''@'' @ domain, ''f_lastname''),
      (firstName @ ''_'' @ lastName @ ''@'' @ domain, ''firstname_lastname''),
      (lastName @ ''_'' @ firstName @ ''@'' @ domain, ''lastname_firstname''),
      (firstInitial @ lastInitial @ ''@'' @ domain, ''fl''),
      (firstName @ ''.'' @ firstInitial @ ''.'' @ lastName @ ''@'' @ domain, ''firstname.f.lastname''),
      (lastName @ ''.'' @ firstInitial @ ''@'' @ domain, ''lastname.f''),
      (firstInitial @ ''.'' @ firstName @ ''.'' @ lastName @ ''@'' @ domain, ''f.firstname.lastname''),
      (firstName @ ''-'' @ lastName @ ''@'' @ domain, ''firstname-lastname'')]"

text \<open>The three entries that each round of the two numbering loops appends.\<close>

definition numbered_patterns ::
  "string \<Rightarrow> string \<Rightarrow> string \<Rightarrow> string \<Rightarrow> string \<Rightarrow> (string \<times> string) list" where
  "numbered_patterns firstName lastName firstInitial domain num =
     [(firstName @ ''.'' @ lastName @ num @ ''@'' @ domain, ''firstname.lastname'' @ num),
      (firstName @ lastName @ num @ ''@'' @ domain, ''firstnamelastname'' @ num),
      (firstInitial @ ''.'' @ lastName @ num @ ''@'' @ domain, ''f.lastname'' @ num)]"

text \<open>\<open>patternList\<close> after the loop over 0 to 9 (\<open>string(rune('0' + i))\<close>) and the loop
  over 1 to 50 (\<open>fmt.Sprintf("%d", i)\<close>).\<close>

definition patternList ::
  "string \<Rightarrow> string \<Rightarrow> string \<Rightarrow> string \<Rightarrow> string \<Rightarrow> (string \<times> string) list" where
  "patternList firstName lastName firstInitial lastInitial domain =
     foldl (\<lambda>pl i. pl @ numbered_patterns firstName lastName firstInitial domain (Sprintf_d i))
       (foldl (\<lambda>pl i. pl @ numbered_patterns firstName lastName firstInitial domain [char_of (48 + i)])
          (base_patterns firstName lastName firstInitial lastInitial domain)
          [0..<10])
       [1..<51]"

text \<open>The last loop: \<open>seen\<close> is the set of the keys of the map of the same name, all of
  which map to true.\<close>

fun dedup_loop ::
  "Unicode \<Rightarrow> string set \<Rightarrow> EmailPattern list \<Rightarrow> (string \<times> string) list \<Rightarrow>
   EmailPattern list" where
  "dedup_loop U seen patterns [] = patterns"
| "dedup_loop U seen patterns ((email, pattern) # rest) =
     (if email \<notin> seen \<and> isValidEmailFormat U email
      then dedup_loop U (insert email seen)
             (patterns @ [\<lparr>ep_Email = email, ep_Pattern = pattern\<rparr>]) rest
      else dedup_loop U seen patterns rest)"

text \<open>\<open>string(s[0])\<close> when \<open>s\<close> is not empty, the empty string otherwise: the
  conversion of a byte to a string encodes the rune whose code point is the byte.\<close>

definition initial_of :: "string \<Rightarrow> string" where
  "initial_of s = (if length s > 0 then EncodeRune (of_char (s ! 0)) else [])"

definition GenerateEmailPatterns ::
  "Unicode \<Rightarrow> string \<Rightarrow> string \<Rightarrow> string \<Rightarrow> EmailPattern list" where
  "GenerateEmailPatterns U firstName0 lastName0 domain0 =
     (let firstName = TrimSpace U (ToLower U firstName0);
          lastName = TrimSpace U (ToLower U lastName0);
          domain = TrimSpace U (ToLower U domain0)
      in if firstName = [] \<or> lastName = [] \<or> domain = [] then []
         else dedup_loop U {} []
                (patternList firstName lastName (initial_of firstName) (initial_of lastName) domain))"

subsection \<open>Package resolver\<close>

record DomainResult =
  Domain :: string
  Resolved :: bool
  Method :: string
  Candidates :: "string list"

text \<open>The table \<open>wellKnownCompanies\<close>, in the order of the source.\<close>

definition wellKnownCompanies_list :: "(string \<times> string) list" where
  "wellKnownCompanies_list =
     [(''google'', ''google.com''),
      (''alphabet'', ''google.com''),
      (''microsoft'', ''microsoft.com''),
      (''apple'', ''apple.com''),
      (''amazon'', ''amazon.com''),
      (''meta'', ''meta.com''),
      (''facebook'', ''meta.com''),
      (''twitter'', ''twitter.com''),
      (''x'', ''x.com''),
      (''linkedin'', ''linkedin.com''),
      (''netflix'', ''netflix.com''),
      (''uber'', ''uber.com''),
      (''airbnb'', ''airbnb.com''),
      (''spotify'', ''spotify.com''),
      (''salesforce'', ''salesforce.com''),
      (''oracle'', ''oracle.com''),
      (''ibm'', ''ibm.com''),
      (''intel'', ''intel.com''),
      (''nvidia'', ''nvidia.com''),
      (''adobe'', ''adobe.com''),
      (''paypal'', ''paypal.com''),
      (''stripe'', ''stripe.com''),
      (''shopify'', ''shopify.com''),
      (''zoom'', ''zoom.us''),
      (''slack'', ''slack.com''),
      (''dropbox'', ''dropbox.com''),
      (''tesla'', ''tesla.com''),
      (''spacex'', ''spacex.com''),
      (''zepto'', ''zeptonow.com''),
      (''swiggy'', ''swiggy.com''),
      (''zomato'', ''zomato.com''),
      (''flipkart'', ''flipkart.com''),
      (''myntra'', ''myntra.com''),
      (''razorpay'', ''razorpay.com''),
      (''paytm'', ''paytm.com''),
      (''phonepe'', ''phonepe.com''),
      (''cred'', ''cred.club''),
      (''byjus'', ''byjus.com''),
      (''infosys'', ''infosys.com''),
      (''tcs'', ''tcs.com''),
      (''tata'', ''tata.com''),
      (''reliance'', ''reliance.co.in''),
      (''wipro'', ''wipro.com''),
      (''hcl'', ''hcl.com''),
      (''goldman sachs'', ''gs.com''),
      (''morgan stanley'', ''morganstanley.com''),
      (''jpmorgan'', ''jpmorgan.com''),
      (''jpmorgan chase'', ''jpmorgan.com''),
      (''bank of america'', ''bankofamerica.com''),
      (''wells fargo'', ''wellsfargo.com''),
      (''citibank'', ''citi.com''),
      (''visa'', ''visa.com''),
      (''mastercard'', ''mastercard.com''),
      (''mckinsey'', ''mckinsey.com''),
      (''bain'', ''bain.com''),
      (''boston consulting'', ''bcg.com''),
      (''bcg'', ''bcg.com''),
      (''deloitte'', ''deloitte.com''),
      (''pwc'', ''pwc.com''),
      (''pricewaterhousecoopers'', ''pwc.com''),
      (''ey'', ''ey.com''),
      (''ernst young'', ''ey.com''),
      (''kpmg'', ''kpmg.com''),
      (''accenture'', ''accenture.com''),
      (''disney'', ''disney.com''),
      (''warner bros'', ''warnerbros.com''),
      (''sony'', ''sony.com''),
      (''nike'', ''nike.com''),
      (''adidas'', ''adidas.com''),
      (''walmart'', ''walmart.com''),
      (''target'', ''target.com''),
      (''costco'', ''costco.com''),
      (''ebay'', ''ebay.com''),
      (''etsy'', ''etsy.com''),
      (''ford'', ''ford.com''),
      (''general motors'', ''gm.com''),
      (''gm'', ''gm.com''),
      (''bmw'', ''bmw.com''),
      (''mercedes'', ''mercedes-benz.com''),
      (''volkswagen'', ''volkswagen.com''),
      (''toyota'', ''toyota.com''),
      (''honda'', ''honda.com''),
      (''starbucks'', ''starbucks.com''),
      (''mcdonalds'', ''mcdonalds.com''),
      (''coca cola'', ''coca-cola.com''),
      (''pepsi'', ''pepsico.com''),
      (''pfizer'', ''pfizer.com''),
      (''johnson johnson'', ''jnj.com''),
      (''jnj'', ''jnj.com''),
      (''novartis'', ''novartis.com''),
      (''roche'', ''roche.com''),
      (''verizon'', ''verizon.com''),
      (''at&t'', ''att.com''),
      (''att'', ''att.com''),
      (''t-mobile'', ''t-mobile.com''),
      (''sprint'', ''sprint.com''),
      (''exxonmobil'', ''exxonmobil.com''),
      (''chevron'', ''chevron.com''),
      (''shell'', ''shell.com''),
      (''bp'', ''bp.com'')]"

definition wellKnownCompanies :: "string \<rightharpoonup> string" where
  "wellKnownCompanies = map_of wellKnownCompanies_list"

text \<open>The resolver: of its fields only the map is state. The read-write lock serialises
  the accesses to the map; the logger and the timeout do not change what is returned.\<close>

record DomainResolver =
  companyMap :: "string \<rightharpoonup> string"

definition NewDomainResolver :: DomainResolver where
  "NewDomainResolver = \<lparr>companyMap = wellKnownCompanies\<rparr>"

text \<open>The three lookups of \<open>net.DefaultResolver\<close> that \<open>verifyDomain\<close> uses, within the
  timeout: the number of MX records, or nothing when the lookup fails; whether the lookup
  of the host succeeds; whether the lookup of the CNAME succeeds.\<close>

record DNS =
  LookupMX :: "string \<Rightarrow> nat option"
  LookupHost :: "string \<Rightarrow> bool"
  LookupCNAME :: "string \<Rightarrow> bool"

definition verifyDomain :: "DNS \<Rightarrow> string \<Rightarrow> bool" where
  "verifyDomain dns domain =
     (if (case LookupMX dns domain of None \<Rightarrow> False | Some n \<Rightarrow> n > 0) then True
      else if LookupHost dns domain then True
      else if LookupCNAME dns domain then True
      else False)"

text \<open>\<open>normalizeCompanyName\<close>: the loop over \<open>suffixes\<close> trims one suffix after the other
  from the same string.\<close>

definition suffixes :: "string list" where
  "suffixes = ['' inc'', '' llc'', '' ltd'', '' corp'', '' corporation'', '' limited'',
               '' company'', '' co'', '' inc.'', '' llc.'', '' ltd.'', '' corp.'']"

definition normalizeCompanyName :: "Unicode \<Rightarrow> string \<Rightarrow> string" where
  "normalizeCompanyName U name = TrimSpace U (foldl TrimSuffix (ToLower U name) suffixes)"

text \<open>\<open>cleanCompanyName\<close>: the loop writes the runes from \<open>a\<close> to \<open>z\<close>, from \<open>0\<close> to \<open>9\<close>
  and the space to the builder; \<open>strings.ReplaceAll(s, " ", "")\<close> removes every space.\<close>

definition cleanCompanyName :: "Unicode \<Rightarrow> string \<Rightarrow> string" where
  "cleanCompanyName U name =
     (let cleaned = concat (map EncodeRune
                      (filter (\<lambda>char. (of_char (CHR ''a'') \<le> char \<and> char \<le> of_char (CHR ''z'')) \<or>
                                      (of_char (CHR ''0'') \<le> char \<and> char \<le> of_char (CHR ''9'')) \<or>
                                      char = of_char (CHR '' ''))
                         (map fst (runes (normalizeCompanyName U name)))));
          result = filter (\<lambda>c. c \<noteq> CHR '' '') cleaned
      in TrimSpace U result)"

definition getCompanyVariations :: "Unicode \<Rightarrow> string \<Rightarrow> string list" where
  "getCompanyVariations U name =
     (let variations = [name];
          words = Fields U name
      in if length words > 1
         then (let variations = variations @ [words ! 0]
               in if length words \<ge> 2 then variations @ [words ! 0 @ words ! 1] else variations)
         else variations)"

definition tlds :: "string list" where
  "tlds = [''com'', ''io'', ''co'', ''net'', ''org'', ''co.uk'', ''com.au'', ''ca'', ''de'', ''fr'']"

text \<open>\<open>generateDomainCandidates\<close>: the first loop appends one candidate for each TLD; the
  nested loops append the candidates of the variations that are not there yet.\<close>

definition add_candidate :: "string \<Rightarrow> string list \<Rightarrow> string \<Rightarrow> string list" where
  "add_candidate variation candidates tld =
     (let candidate = variation @ ''.'' @ tld
      in if candidate \<in> set candidates then candidates else candidates @ [candidate])"

definition generateDomainCandidates :: "Unicode \<Rightarrow> string \<Rightarrow> string list" where
  "generateDomainCandidates U companyName =
     (let cleaned = cleanCompanyName U companyName;
          candidates = foldl (\<lambda>candidates tld. candidates @ [cleaned @ ''.'' @ tld]) [] tlds;
          variations = getCompanyVariations U cleaned
      in foldl (\<lambda>candidates variation. foldl (add_candidate variation) candidates tlds)
           candidates variations)"

text \<open>\<open>isDomain\<close>.\<close>

definition isDomain :: "string \<Rightarrow> bool" where
  "isDomain input =
     (if Contains input (CHR ''.'') \<and> \<not> Contains input (CHR '' '')
      then (let parts = Split input (CHR ''.'')
            in if length parts \<ge> 2
               then (let tld = parts ! (length parts - 1) in length tld \<ge> 2)
               else False)
      else False)"

text \<open>\<open>AddCompanyDomain\<close> and \<open>GetCompanyDomain\<close>: the second returns the domain and whether
  the key exists, here an option.\<close>

definition AddCompanyDomain ::
  "Unicode \<Rightarrow> DomainResolver \<Rightarrow> string \<Rightarrow> string \<Rightarrow> DomainResolver" where
  "AddCompanyDomain U r companyName domain =
     r\<lparr>companyMap := (companyMap r)(normalizeCompanyName U companyName \<mapsto> domain)\<rparr>"

definition GetCompanyDomain :: "Unicode \<Rightarrow> DomainResolver \<Rightarrow> string \<Rightarrow> string option" where
  "GetCompanyDomain U r companyName = companyMap r (normalizeCompanyName U companyName)"

text \<open>\<open>ResolveDomain\<close>. The loop over the candidates returns at the first one that
  \<open>verifyDomain\<close> accepts; \<open>candidates[0]\<close> panics when there is no candidate.\<close>

definition ResolveDomain ::
  "Unicode \<Rightarrow> DNS \<Rightarrow> DomainResolver \<Rightarrow> string \<Rightarrow> error + DomainResult" where
  "ResolveDomain U dns r companyName0 =
     (let companyName = TrimSpace U (ToLower U companyName0)
      in if companyName = [] then
           Inr \<lparr>Domain = [], Resolved = False, Method = ''none'', Candidates = []\<rparr>
         else if isDomain companyName then
           (if verifyDomain dns companyName
            then Inr \<lparr>Domain = companyName, Resolved = True, Method = ''direct'', Candidates = []\<rparr>
            else Inr \<lparr>Domain = companyName, Resolved = True, Method = ''direct'', Candidates = []\<rparr>)
         else (case GetCompanyDomain U r companyName of
                 Some domain \<Rightarrow>
                   Inr \<lparr>Domain = domain, Resolved = True, Method = ''company_map'', Candidates = []\<rparr>
               | None \<Rightarrow>
                   (let candidates = generateDomainCandidates U companyName
                    in case find (verifyDomain dns) candidates of
                         Some candidate \<Rightarrow>
                           Inr \<lparr>Domain = candidate, Resolved = True, Method = ''dns_verified'',
                                Candidates = candidates\<rparr>
                       | None \<Rightarrow>
                           (case candidates of
                              [] \<Rightarrow> Inl panic_index_out_of_range
                            | primaryCandidate # _ \<Rightarrow>
                                Inr \<lparr>Domain = primaryCandidate, Resolved = True, Method = ''pattern'',
                                     Candidates = candidates\<rparr>))))"

subsection \<open>Package service\<close>

record EmailResult =
  er_Email :: string
  er_Pattern :: string
  er_IsReachable :: string
  er_IsValid :: bool
  er_IsDeliverable :: bool
  er_Confidence :: string

text \<open>\<open>calculateConfidence\<close>.\<close>

definition calculateConfidence :: "VerificationResult \<Rightarrow> string" where
  "calculateConfidence result =
     (if IsReachable result = ''safe'' \<and> IsDeliverable result then ''high''
      else if IsReachable result = ''risky'' \<and> IsDeliverable result then ''medium''
      else if IsValid result then ''low''
      else ''low'')"

text \<open>The test of the loop of \<open>FindEmails\<close> that filters the verification results.\<close>

definition is_found :: "VerificationResult \<Rightarrow> bool" where
  "is_found result =
     (IsReachable result \<noteq> ''unknown'' \<and>
      (IsReachable result = ''safe'' \<or> (IsReachable result = ''risky'' \<and> IsDeliverable result)))"

text \<open>A Go map read \<open>m[k]\<close> of a \<open>map[string]string\<close>: the zero value, the empty string,
  when the key is absent.\<close>

definition map_get :: "(string \<rightharpoonup> string) \<Rightarrow> string \<Rightarrow> string" where
  "map_get m k = (case m k of None \<Rightarrow> [] | Some v \<Rightarrow> v)"

definition to_EmailResult :: "(string \<rightharpoonup> string) \<Rightarrow> VerificationResult \<Rightarrow> EmailResult" where
  "to_EmailResult emailToPattern result =
     \<lparr>er_Email = Email result,
      er_Pattern = map_get emailToPattern (Email result),
      er_IsReachable = IsReachable result,
      er_IsValid = IsValid result,
      er_IsDeliverable = IsDeliverable result,
      er_Confidence = calculateConfidence result\<rparr>"

text \<open>The loop over \<open>verificationResults\<close>: \<open>foundEmails\<close> is the accumulator. The
  elements are pointers, and the loop reads through each of them.\<close>

fun collect_found ::
  "(string \<rightharpoonup> string) \<Rightarrow> EmailResult list \<Rightarrow> VerificationResult option list \<Rightarrow>
   error + EmailResult list" where
  "collect_found emailToPattern foundEmails [] = Inr foundEmails"
| "collect_found emailToPattern foundEmails (None # rest) = Inl panic_nil_pointer_dereference"
| "collect_found emailToPattern foundEmails (Some result # rest) =
     (if is_found result
      then collect_found emailToPattern (foundEmails @ [to_EmailResult emailToPattern result]) rest
      else collect_found emailToPattern foundEmails rest)"

text \<open>\<open>sortByConfidence\<close>: one pass that appends every result to one of three slices.\<close>

fun sort_loop ::
  "EmailResult list \<Rightarrow> EmailResult list \<Rightarrow> EmailResult list \<Rightarrow> EmailResult list \<Rightarrow>
   EmailResult list \<times> EmailResult list \<times> EmailResult list" where
  "sort_loop high medium low [] = (high, medium, low)"
| "sort_loop high medium low (email # rest) =
     (if er_Confidence email = ''high'' then sort_loop (high @ [email]) medium low rest
      else if er_Confidence email = ''medium'' then sort_loop high (medium @ [email]) low rest
      else sort_loop high medium (low @ [email]) rest)"

definition sortByConfidence :: "EmailResult list \<Rightarrow> EmailResult list" where
  "sortByConfidence emails =
     (case sort_loop [] [] [] emails of (high, medium, low) \<Rightarrow> ([] @ high) @ medium @ low)"

text \<open>
  The service: the verifier is an interface, here the function \<open>VerifyEmailsBatch\<close> of the
  realisation, which returns its results or an error, and the log of the emails that were
  given to the oracle.
\<close>

type_synonym verifier = "string list \<Rightarrow> (error + VerificationResult option list) \<times> string list"

record EmailFinderService =
  domainResolver :: DomainResolver
  maxPatterns :: int

record FindEmailRequest =
  FirstName :: string
  LastName :: string
  Company :: string

record FindEmailResponse =
  FoundEmails :: "EmailResult list"
  TotalChecked :: nat
  TotalFound :: nat
  resp_Domain :: string
  DomainResolved :: bool
  Request :: FindEmailRequest

text \<open>The limit on the number of patterns, and the map from the emails to the names of
  their patterns that the loop over the patterns builds.\<close>

definition limit_patterns :: "int \<Rightarrow> EmailPattern list \<Rightarrow> EmailPattern list" where
  "limit_patterns limit patterns =
     (if limit > 0 \<and> int (length patterns) > limit
      then take (nat limit) patterns else patterns)"

definition emailToPattern_of :: "EmailPattern list \<Rightarrow> (string \<rightharpoonup> string)" where
  "emailToPattern_of patterns =
     foldl (\<lambda>m pattern. m(ep_Email pattern \<mapsto> ep_Pattern pattern)) Map.empty patterns"

text \<open>\<open>FindEmails\<close>, with the log of the emails that were given to the oracle.\<close>

definition FindEmails ::
  "Unicode \<Rightarrow> DNS \<Rightarrow> verifier \<Rightarrow> EmailFinderService \<Rightarrow> FindEmailRequest \<Rightarrow>
   (error + FindEmailResponse) \<times> string list" where
  "FindEmails U dns VerifyEmailsBatch s req =
     (case ResolveDomain U dns (domainResolver s) (Company req) of
        Inl panic \<Rightarrow> (Inl panic, [])
      | Inr domainResult \<Rightarrow>
          (let domain = Domain domainResult
           in if \<not> Resolved domainResult \<or> domain = [] then
                (Inr \<lparr>FoundEmails = [], TotalChecked = 0, TotalFound = 0, resp_Domain = [],
                      DomainResolved = False, Request = req\<rparr>, [])
              else
                (let patterns = limit_patterns (maxPatterns s)
                                  (GenerateEmailPatterns U (FirstName req) (LastName req) domain)
                 in if length patterns = 0 then
                      (Inr \<lparr>FoundEmails = [], TotalChecked = 0, TotalFound = 0, resp_Domain = domain,
                            DomainResolved = True, Request = req\<rparr>, [])
                    else
                      (let emails = map ep_Email patterns;
                           emailToPattern = emailToPattern_of patterns
                       in case VerifyEmailsBatch emails of
                            (Inl err, calls) \<Rightarrow> (Inl err, calls)
                          | (Inr verificationResults, calls) \<Rightarrow>
                              (case collect_found emailToPattern [] verificationResults of
                                 Inl panic \<Rightarrow> (Inl panic, calls)
                               | Inr foundEmails0 \<Rightarrow>
                                   (let foundEmails = sortByConfidence foundEmails0
                                    in (Inr \<lparr>FoundEmails = foundEmails,
                                             TotalChecked = length patterns,
                                             TotalFound = length foundEmails,
                                             resp_Domain = domain,
                                             DomainResolved = True,
                                             Request = req\<rparr>, calls)))))))"

text \<open>The two realisations of the verifier, as the service sees them: the world of the
  oracle and the choice of a schedule for a batch of each size are fixed.\<close>

definition HTTPVerifier :: "(nat \<Rightarrow> string \<Rightarrow> http_exchange) \<Rightarrow> (nat \<Rightarrow> nat list) \<Rightarrow> verifier" where
  "HTTPVerifier world schedule emails =
     HTTP_VerifyEmailsBatch world (schedule (length emails)) emails"

definition CLIVerifier :: "(nat \<Rightarrow> string \<Rightarrow> cli_run) \<Rightarrow> (nat \<Rightarrow> nat list) \<Rightarrow> verifier" where
  "CLIVerifier world schedule emails =
     CLI_VerifyEmailsBatch world (schedule (length emails)) emails"

subsection \<open>The format of an email, in the words of the specification\<close>

text \<open>The labels of a domain, joined by dots.\<close>

fun Join :: "string list \<Rightarrow> char \<Rightarrow> string" where
  "Join [] sep = []"
| "Join [x] sep = x"
| "Join (x # y # ys) sep = x @ sep # Join (y # ys) sep"

text \<open>Modelled from the words of the specification, to compare \<open>isValidEmailFormat\<close> with:
  a local part of 1 to 64 characters (and bytes), each a letter, a digit or one of
  \<open>. _ - +\<close>, an at sign, and a domain of at most 253 characters (and bytes) that is two
  or more labels joined by dots, each label not empty and of letters, digits and hyphens
  only, with no dot at either end of the domain. The characters of a string are its
  runes.\<close>

definition email_format_spec :: "Unicode \<Rightarrow> string \<Rightarrow> bool" where
  "email_format_spec U email =
     (\<exists>local domain labels.
        email = local @ ''@'' @ domain \<and>
        1 \<le> length (runes local) \<and> length (runes local) \<le> 64 \<and> length local \<le> 64 \<and>
        (\<forall>c\<in>set (map fst (runes local)).
           IsLetter U c \<or> IsDigit U c \<or>
           c \<in> of_char ` {CHR ''.'', CHR ''_'', CHR ''-'', CHR ''+''}) \<and>
        length (runes domain) \<le> 253 \<and> length domain \<le> 253 \<and>
        domain = Join labels (CHR ''.'') \<and>
        2 \<le> length labels \<and>
        (\<forall>label\<in>set labels. label \<noteq> [] \<and>
           (\<forall>c\<in>set (map fst (runes label)). IsLetter U c \<or> IsDigit U c \<or> c = of_char (CHR ''-''))) \<and>
        domain \<noteq> [] \<and> hd domain \<noteq> CHR ''.'' \<and> last domain \<noteq> CHR ''.'')"

subsection \<open>Inputs of the examples\<close>

definition outcome :: "string \<Rightarrow> bool \<Rightarrow> VerificationResult" where
  "outcome reachability deliverable =
     \<lparr>Email = reachability, IsReachable = reachability, IsValid = True,
      IsDeliverable = deliverable, Details = Map.empty\<rparr>"

definition reply :: "string \<Rightarrow> string \<Rightarrow> bool \<Rightarrow> http_exchange" where
  "reply email reachability deliverable =
     Response 200 (Object \<lparr>Input = email, api_IsReachable = reachability,
       SMTP_IsDeliverable = deliverable, Syntax_IsValidSyntax = True, MX_AcceptsMail = True\<rparr>)"

definition second_fails :: "nat \<Rightarrow> string \<Rightarrow> http_exchange" where
  "second_fails idx email = (if idx = 1 then DoFailed Transport else reply email ''safe'' True)"

definition no_dns :: DNS where
  "no_dns = \<lparr>LookupMX = (\<lambda>_. None), LookupHost = (\<lambda>_. False), LookupCNAME = (\<lambda>_. False)\<rparr>"

text \<open>Tables that hold nothing: the inputs of the examples are ASCII, for which no
  table is consulted.\<close>

definition no_tables :: Unicode where
  "no_tables = \<lparr>To_LowerCase = (\<lambda>r. r), Letter = (\<lambda>r. False), Digit = (\<lambda>r. False),
     White_Space = (\<lambda>r. False)\<rparr>"

definition seeded_service :: "int \<Rightarrow> EmailFinderService" where
  "seeded_service limit = \<lparr>domainResolver = NewDomainResolver, maxPatterns = limit\<rparr>"

definition in_order :: "nat \<Rightarrow> nat list" where
  "in_order n = [0..<n]"

definition all_fail :: "nat \<Rightarrow> string \<Rightarrow> http_exchange" where
  "all_fail idx email = DoFailed Transport"

definition john_doe :: FindEmailRequest where
  "john_doe = \<lparr>FirstName = ''John'', LastName = ''Doe'', Company = ''Example.com''\<rparr>"

definition blank_doe :: FindEmailRequest where
  "blank_doe = \<lparr>FirstName = '' '', LastName = ''Doe'', Company = ''Example.com''\<rparr>"

section \<open>Properties\<close>

lemma collect_found_eq:
  "collect_found m acc (map Some rs) = Inr (acc @ map (to_EmailResult m) (filter is_found rs))"
  by (induction rs arbitrary: acc) simp_all

lemma sort_loop_eq:
  "sort_loop h m l es =
     (h @ filter (\<lambda>e. er_Confidence e = ''high'') es,
      m @ filter (\<lambda>e. er_Confidence e = ''medium'') es,
      l @ filter (\<lambda>e. er_Confidence e \<noteq> ''high'' \<and> er_Confidence e \<noteq> ''medium'') es)"
  by (induction es arbitrary: h m l) auto

lemma sortByConfidence_eq:
  "sortByConfidence es =
     filter (\<lambda>e. er_Confidence e = ''high'') es @
     filter (\<lambda>e. er_Confidence e = ''medium'') es @
     filter (\<lambda>e. er_Confidence e \<noteq> ''high'' \<and> er_Confidence e \<noteq> ''medium'') es"
  by (simp add: sortByConfidence_def sort_loop_eq)

lemma calculateConfidence_cases:
  "calculateConfidence r =
     (if IsReachable r = ''safe'' \<and> IsDeliverable r then ''high''
      else if IsReachable r = ''risky'' \<and> IsDeliverable r then ''medium'' else ''low'')"
  by (simp add: calculateConfidence_def)

subsection \<open>Ranking\<close>

text \<open>
  C5. The loop of \<open>FindEmails\<close> keeps a verification result exactly when it is safe, or
  risky and deliverable, so it drops every unknown and every invalid one. The confidence of a result is high exactly when it is safe and
  deliverable, medium exactly when it is risky and deliverable, and low in every other
  case. What \<open>sortByConfidence\<close> returns for the results that were kept is their stable
  partition: the results of high confidence in the order of the input, then those of
  medium confidence, then those of low confidence.
\<close>

theorem ranking_filter_tiers_stable_partition:
  "(is_found r \<longleftrightarrow>
      IsReachable r = ''safe'' \<or> (IsReachable r = ''risky'' \<and> IsDeliverable r)) \<and>
   (IsReachable r = ''unknown'' \<or> IsReachable r = ''invalid'' \<longrightarrow> \<not> is_found r) \<and>
   (calculateConfidence r = ''high'' \<longleftrightarrow> IsReachable r = ''safe'' \<and> IsDeliverable r) \<and>
   (calculateConfidence r = ''medium'' \<longleftrightarrow> IsReachable r = ''risky'' \<and> IsDeliverable r) \<and>
   (calculateConfidence r = ''low'' \<longleftrightarrow>
      \<not> (IsReachable r = ''safe'' \<and> IsDeliverable r) \<and>
      \<not> (IsReachable r = ''risky'' \<and> IsDeliverable r)) \<and>
   map_sum id sortByConfidence (collect_found m [] (map Some rs)) =
     Inr (map (to_EmailResult m)
       (filter (\<lambda>r. is_found r \<and> calculateConfidence r = ''high'') rs @
        filter (\<lambda>r. is_found r \<and> calculateConfidence r = ''medium'') rs @
        filter (\<lambda>r. is_found r \<and> calculateConfidence r = ''low'') rs))"
proof -
  have keep: "is_found r \<longleftrightarrow>
      IsReachable r = ''safe'' \<or> (IsReachable r = ''risky'' \<and> IsDeliverable r)"
    by (auto simp: is_found_def)
  have tiers:
    "(calculateConfidence r = ''high'' \<longleftrightarrow> IsReachable r = ''safe'' \<and> IsDeliverable r) \<and>
     (calculateConfidence r = ''medium'' \<longleftrightarrow> IsReachable r = ''risky'' \<and> IsDeliverable r) \<and>
     (calculateConfidence r = ''low'' \<longleftrightarrow>
        \<not> (IsReachable r = ''safe'' \<and> IsDeliverable r) \<and>
        \<not> (IsReachable r = ''risky'' \<and> IsDeliverable r))"
    by (auto simp: calculateConfidence_cases)
  have conf: "er_Confidence (to_EmailResult m x) = calculateConfidence x" for x
    by (simp add: to_EmailResult_def)
  have low: "(calculateConfidence x \<noteq> ''high'' \<and> calculateConfidence x \<noteq> ''medium'') =
             (calculateConfidence x = ''low'')" for x
    by (auto simp: calculateConfidence_cases)
  have part: "map_sum id sortByConfidence (collect_found m [] (map Some rs)) =
     Inr (map (to_EmailResult m)
       (filter (\<lambda>r. is_found r \<and> calculateConfidence r = ''high'') rs @
        filter (\<lambda>r. is_found r \<and> calculateConfidence r = ''medium'') rs @
        filter (\<lambda>r. is_found r \<and> calculateConfidence r = ''low'') rs))"
    by (simp add: collect_found_eq sortByConfidence_eq filter_map o_def conf low conj_commute)
  have dropped: "IsReachable r = ''unknown'' \<or> IsReachable r = ''invalid'' \<longrightarrow> \<not> is_found r"
    by (auto simp: is_found_def)
  from keep dropped tiers part show ?thesis by blast
qed

text \<open>Six outcomes, of which three are kept; the three come out as high, medium, low.\<close>

theorem ranking_filter_tiers_stable_partition_witness:
  "map_sum id (map er_Confidence \<circ> sortByConfidence)
     (collect_found Map.empty []
        [Some (outcome ''safe'' False), Some (outcome ''unknown'' True),
         Some (outcome ''risky'' True), Some (outcome ''invalid'' True),
         Some (outcome ''risky'' False), Some (outcome ''safe'' True)])
   = Inr [''high'', ''medium'', ''low'']"
  using ranking_filter_tiers_stable_partition
    [of "outcome ''safe'' True" Map.empty
        "[outcome ''safe'' False, outcome ''unknown'' True, outcome ''risky'' True,
          outcome ''invalid'' True, outcome ''risky'' False, outcome ''safe'' True]"]
  by (simp add: outcome_def is_found_def calculateConfidence_def to_EmailResult_def map_get_def)

subsection \<open>Batch verification\<close>

text \<open>A run of goroutines, each of which writes the slot of its index with a value that
  depends on the index only.\<close>

lemma run_log:
  assumes "\<And>st idx. snd (task st idx) = snd st @ [f idx]"
  shows "snd (foldl task st sched) = snd st @ map f sched"
  using assms by (induction sched arbitrary: st) simp_all

lemma run_length:
  assumes "\<And>st idx. fst (task st idx) = (fst st)[idx := g idx]"
  shows "length (fst (foldl task st sched)) = length (fst st)"
  using assms by (induction sched arbitrary: st) simp_all

lemma run_slot:
  assumes "\<And>st idx. fst (task st idx) = (fst st)[idx := g idx]"
    and "j < length (fst st)"
  shows "fst (foldl task st sched) ! j = (if j \<in> set sched then g j else fst st ! j)"
  using assms
proof (induction sched arbitrary: st)
  case Nil
  then show ?case by simp
next
  case (Cons idx sched)
  have "j < length (fst (task st idx))"
    using Cons.prems by simp
  from Cons.IH[OF Cons.prems(1) this] show ?case
    using Cons.prems by (auto simp: nth_list_update)
qed

lemma run_all_slots:
  assumes task: "\<And>st idx. fst (task st idx) = (fst st)[idx := Some (g idx)]"
    and sched: "is_schedule n sched"
  shows "fst (foldl task (replicate n None, calls) sched) = map (\<lambda>i. Some (g i)) [0..<n]"
proof (rule nth_equalityI)
  show "length (fst (foldl task (replicate n None, calls) sched)) = length (map (\<lambda>i. Some (g i)) [0..<n])"
    using run_length[of task "\<lambda>i. Some (g i)", OF task] by simp
next
  fix j assume "j < length (fst (foldl task (replicate n None, calls) sched))"
  then have j: "j < n"
    using run_length[of task "\<lambda>i. Some (g i)", OF task] by simp
  then have "j \<in> set sched" using sched by (simp add: is_schedule_def)
  then show "fst (foldl task (replicate n None, calls) sched) ! j = map (\<lambda>i. Some (g i)) [0..<n] ! j"
    using run_slot[of task "\<lambda>i. Some (g i)" j "(replicate n None, calls)" sched, OF task] j by simp
qed

lemma schedule_log_mset:
  assumes "is_schedule (length emails) sched"
  shows "mset (map ((!) emails) sched) = mset emails"
proof -
  have "mset sched = mset [0..<length emails]"
    using assms by (simp add: is_schedule_def) (metis mset_set_set)
  then have "mset (map ((!) emails) sched) = mset (map ((!) emails) [0..<length emails])"
    by (metis mset_map)
  then show ?thesis by (simp add: map_nth)
qed

lemma HTTP_VerifyEmailsBatch_eq:
  assumes "is_schedule (length emails) schedule"
  shows "HTTP_VerifyEmailsBatch world schedule emails =
     (Inr (map (\<lambda>i. Some (HTTP_verify_or_unknown (world i (emails ! i)) (emails ! i))) [0..<length emails]),
      map ((!) emails) schedule)"
proof (cases "emails = []")
  case True
  then show ?thesis using assms by (simp add: HTTP_VerifyEmailsBatch_def is_schedule_def)
next
  case False
  have t1: "\<And>st idx. fst (HTTP_task world emails st idx) =
      (fst st)[idx := Some (HTTP_verify_or_unknown (world idx (emails ! idx)) (emails ! idx))]"
    by (simp add: HTTP_task_def Let_def)
  have t2: "\<And>st idx. snd (HTTP_task world emails st idx) = snd st @ [emails ! idx]"
    by (simp add: HTTP_task_def Let_def)
  show ?thesis
    using False run_all_slots[of "HTTP_task world emails" _ "length emails" schedule "[]", OF t1 assms]
      run_log[of "HTTP_task world emails" "(!) emails" "(replicate (length emails) None, [])" schedule, OF t2]
    by (simp add: HTTP_VerifyEmailsBatch_def Let_def)
qed


text \<open>
  C4. For every list of emails and every schedule of its goroutines,
  \<open>HTTPVerifier.VerifyEmailsBatch\<close> returns no error and a list of the length of the input
  whose element at index \<open>i\<close> is the result of verifying the email at index \<open>i\<close>; the
  oracle is called once for each email, and not at all for the empty list, for which the
  output is empty; where the call for the email at index \<open>i\<close> returns an error, the
  element at index \<open>i\<close> is the unknown result for that email (not valid, not deliverable);
  and the element at an index depends on the fate of the request of that index only.
\<close>

theorem HTTP_VerifyEmailsBatch_index_aligned:
  assumes "is_schedule (length emails) schedule"
  shows
    "HTTP_VerifyEmailsBatch world schedule emails =
       (Inr (map (\<lambda>i. Some (case HTTP_VerifyEmail (world i (emails ! i)) (emails ! i) of
                               Inl err \<Rightarrow> unknown_result (emails ! i)
                             | Inr result \<Rightarrow> result)) [0..<length emails]),
        map ((!) emails) schedule) \<and>
     length (projr (fst (HTTP_VerifyEmailsBatch world schedule emails))) = length emails \<and>
     mset (snd (HTTP_VerifyEmailsBatch world schedule emails)) = mset emails \<and>
     (emails = [] \<longrightarrow> HTTP_VerifyEmailsBatch world schedule emails = (Inr [], [])) \<and>
     (\<forall>i<length emails. isl (HTTP_VerifyEmail (world i (emails ! i)) (emails ! i)) \<longrightarrow>
        projr (fst (HTTP_VerifyEmailsBatch world schedule emails)) ! i =
          Some \<lparr>Email = emails ! i, IsReachable = ''unknown'', IsValid = False,
                IsDeliverable = False, Details = Map.empty\<rparr>) \<and>
     (\<forall>j<length emails. world' j (emails ! j) = world j (emails ! j) \<longrightarrow>
        projr (fst (HTTP_VerifyEmailsBatch world' schedule emails)) ! j =
        projr (fst (HTTP_VerifyEmailsBatch world schedule emails)) ! j)"
proof -
  have eq: "HTTP_VerifyEmailsBatch w schedule emails =
     (Inr (map (\<lambda>i. Some (HTTP_verify_or_unknown (w i (emails ! i)) (emails ! i))) [0..<length emails]),
      map ((!) emails) schedule)" for w
    using assms by (rule HTTP_VerifyEmailsBatch_eq)
  have 1: "HTTP_VerifyEmailsBatch world schedule emails =
       (Inr (map (\<lambda>i. Some (case HTTP_VerifyEmail (world i (emails ! i)) (emails ! i) of
                               Inl err \<Rightarrow> unknown_result (emails ! i)
                             | Inr result \<Rightarrow> result)) [0..<length emails]),
        map ((!) emails) schedule)"
    by (simp add: eq HTTP_verify_or_unknown_def)
  have 2: "length (projr (fst (HTTP_VerifyEmailsBatch world schedule emails))) = length emails"
    by (simp add: eq)
  have 3: "mset (snd (HTTP_VerifyEmailsBatch world schedule emails)) = mset emails"
    using schedule_log_mset[OF assms] by (simp add: eq)
  have 4: "emails = [] \<longrightarrow> HTTP_VerifyEmailsBatch world schedule emails = (Inr [], [])"
    by (simp add: HTTP_VerifyEmailsBatch_def)
  have 5: "\<forall>i<length emails. isl (HTTP_VerifyEmail (world i (emails ! i)) (emails ! i)) \<longrightarrow>
        projr (fst (HTTP_VerifyEmailsBatch world schedule emails)) ! i =
          Some \<lparr>Email = emails ! i, IsReachable = ''unknown'', IsValid = False,
                IsDeliverable = False, Details = Map.empty\<rparr>"
    by (auto simp: eq HTTP_verify_or_unknown_def unknown_result_def isl_def)
  have 6: "\<forall>j<length emails. world' j (emails ! j) = world j (emails ! j) \<longrightarrow>
        projr (fst (HTTP_VerifyEmailsBatch world' schedule emails)) ! j =
        projr (fst (HTTP_VerifyEmailsBatch world schedule emails)) ! j"
    by (simp add: eq)
  from 1 2 3 4 5 6 show ?thesis by blast
qed

theorem HTTP_VerifyEmailsBatch_index_aligned_witness:
  "is_schedule (length [''a@x.io'', ''b@x.io'', ''c@x.io'']) [2, 0, 1] \<and>
   isl (HTTP_VerifyEmail (second_fails 1 ''b@x.io'') ''b@x.io'') \<and>
   HTTP_VerifyEmailsBatch second_fails [2, 0, 1] [''a@x.io'', ''b@x.io'', ''c@x.io''] =
     (Inr [Some (result_of \<lparr>Input = ''a@x.io'', api_IsReachable = ''safe'',
               SMTP_IsDeliverable = True, Syntax_IsValidSyntax = True, MX_AcceptsMail = True\<rparr>),
           Some (unknown_result ''b@x.io''),
           Some (result_of \<lparr>Input = ''c@x.io'', api_IsReachable = ''safe'',
               SMTP_IsDeliverable = True, Syntax_IsValidSyntax = True, MX_AcceptsMail = True\<rparr>)],
      [''c@x.io'', ''a@x.io'', ''b@x.io''])"
proof -
  have h: "is_schedule (length [''a@x.io'', ''b@x.io'', ''c@x.io'']) [2, 0, 1]"
    by (auto simp: is_schedule_def)
  have f: "isl (HTTP_VerifyEmail (second_fails 1 ''b@x.io'') ''b@x.io'')"
    by (simp add: second_fails_def HTTP_VerifyEmail_def)
  have u: "[0..<3] = [0, 1, 2]" by (simp add: upt_rec)
  from HTTP_VerifyEmailsBatch_index_aligned[OF h, of second_fails second_fails]
  have "HTTP_VerifyEmailsBatch second_fails [2, 0, 1] [''a@x.io'', ''b@x.io'', ''c@x.io''] =
     (Inr (map (\<lambda>i. Some (case HTTP_VerifyEmail (second_fails i ([''a@x.io'', ''b@x.io'', ''c@x.io''] ! i)) ([''a@x.io'', ''b@x.io'', ''c@x.io''] ! i) of
                               Inl err \<Rightarrow> unknown_result ([''a@x.io'', ''b@x.io'', ''c@x.io''] ! i)
                             | Inr result \<Rightarrow> result)) [0..<length [''a@x.io'', ''b@x.io'', ''c@x.io'']]),
        map ((!) [''a@x.io'', ''b@x.io'', ''c@x.io'']) [2, 0, 1])"
    by blast
  then have "HTTP_VerifyEmailsBatch second_fails [2, 0, 1] [''a@x.io'', ''b@x.io'', ''c@x.io''] =
     (Inr [Some (result_of \<lparr>Input = ''a@x.io'', api_IsReachable = ''safe'',
               SMTP_IsDeliverable = True, Syntax_IsValidSyntax = True, MX_AcceptsMail = True\<rparr>),
           Some (unknown_result ''b@x.io''),
           Some (result_of \<lparr>Input = ''c@x.io'', api_IsReachable = ''safe'',
               SMTP_IsDeliverable = True, Syntax_IsValidSyntax = True, MX_AcceptsMail = True\<rparr>)],
      [''c@x.io'', ''a@x.io'', ''b@x.io''])"
    by (simp add: u second_fails_def reply_def HTTP_VerifyEmail_def)
  with h f show ?thesis by blast
qed


subsection \<open>Verification of one email\<close>

lemma IsReachable_result_of [simp]: "IsReachable (result_of r) = api_IsReachable r"
  by (simp add: result_of_def)

lemma IsReachable_unknown_result [simp]: "IsReachable (unknown_result email) = ''unknown''"
  by (simp add: unknown_result_def)





subsection \<open>Normalisation of names\<close>


lemma TrimSuffix_same [simp]: "TrimSuffix (b @ s) s = b"
  by (simp add: TrimSuffix_def HasSuffix_def)









subsection \<open>Resolution\<close>

lemma first_candidates:
  "foldl (\<lambda>candidates tld. candidates @ [c @ ''.'' @ tld]) [] tlds =
   map (\<lambda>tld. c @ ''.'' @ tld) tlds"
  by (simp add: tlds_def)

lemma add_candidate_prefix: "prefix cs (foldl (add_candidate v) cs ts)"
proof (induction ts arbitrary: cs)
  case Nil
  then show ?case by simp
next
  case (Cons t ts)
  have "prefix cs (add_candidate v cs t)"
    by (simp add: add_candidate_def Let_def)
  then show ?case
    using Cons.IH[of "add_candidate v cs t"] by (auto intro: prefix_order.trans)
qed

lemma variations_prefix:
  "prefix cs (foldl (\<lambda>candidates variation. foldl (add_candidate variation) candidates ts) cs vs)"
proof (induction vs arbitrary: cs)
  case Nil
  then show ?case by simp
next
  case (Cons v vs)
  show ?case
    using add_candidate_prefix[of cs v ts] Cons.IH[of "foldl (add_candidate v) cs ts"]
    by (auto intro: prefix_order.trans)
qed

lemma generateDomainCandidates_prefix:
  "prefix (map (\<lambda>tld. cleanCompanyName U name @ ''.'' @ tld) tlds) (generateDomainCandidates U name)"
  unfolding generateDomainCandidates_def Let_def first_candidates by (rule variations_prefix)

lemma generateDomainCandidates_Cons:
  "\<exists>rest. generateDomainCandidates U name = (cleanCompanyName U name @ ''.com'') # rest"
proof -
  from generateDomainCandidates_prefix[of U name] obtain zs where
    "generateDomainCandidates U name = map (\<lambda>tld. cleanCompanyName U name @ ''.'' @ tld) tlds @ zs"
    by (auto simp: prefix_def)
  then show ?thesis by (simp add: tlds_def)
qed

lemma generateDomainCandidates_length: "10 \<le> length (generateDomainCandidates U name)"
proof -
  from generateDomainCandidates_prefix[of U name]
  have "length (map (\<lambda>tld. cleanCompanyName U name @ ''.'' @ tld) tlds) \<le> length (generateDomainCandidates U name)"
    by (rule prefix_length_le)
  then show ?thesis by (simp add: tlds_def)
qed

lemma candidate_nonempty: "c \<in> set (generateDomainCandidates U name) \<Longrightarrow> c \<noteq> []"
proof -
  have step: "\<forall>c\<in>set cs. c \<noteq> [] \<Longrightarrow> \<forall>c\<in>set (add_candidate v cs t). c \<noteq> []" for cs v t
    by (auto simp: add_candidate_def Let_def)
  have add: "\<forall>c\<in>set cs. c \<noteq> [] \<Longrightarrow> \<forall>c\<in>set (foldl (add_candidate v) cs ts). c \<noteq> []" for cs v ts
  proof (induction ts arbitrary: cs)
    case Nil
    then show ?case by simp
  next
    case (Cons t ts)
    from Cons.IH[OF step[OF Cons.prems]] show ?case by simp
  qed
  have vars: "\<forall>c\<in>set cs. c \<noteq> [] \<Longrightarrow>
    \<forall>c\<in>set (foldl (\<lambda>candidates variation. foldl (add_candidate variation) candidates ts) cs vs). c \<noteq> []" for cs ts vs
  proof (induction vs arbitrary: cs)
    case Nil
    then show ?case by simp
  next
    case (Cons v vs)
    from Cons.IH[OF add[OF Cons.prems]] show ?case by simp
  qed
  have "\<forall>c\<in>set (map (\<lambda>tld. cleanCompanyName U name @ ''.'' @ tld) tlds). c \<noteq> []"
    by simp
  from vars[OF this] show "c \<in> set (generateDomainCandidates U name) \<Longrightarrow> c \<noteq> []"
    unfolding generateDomainCandidates_def Let_def first_candidates by blast
qed

lemma isDomain_nonempty: "isDomain s \<Longrightarrow> s \<noteq> []"
  by (auto simp: isDomain_def Contains_def)

text \<open>The four ways in which \<open>ResolveDomain\<close> returns for an organization that is not
  blank, and the one for a blank one.\<close>

lemma ResolveDomain_cases:
  fixes U dns r organization
  defines "cn \<equiv> TrimSpace U (ToLower U organization)"
  shows "ResolveDomain U dns r organization =
    (if cn = [] then Inr \<lparr>Domain = [], Resolved = False, Method = ''none'', Candidates = []\<rparr>
     else if isDomain cn then
       Inr \<lparr>Domain = cn, Resolved = True, Method = ''direct'', Candidates = []\<rparr>
     else case GetCompanyDomain U r cn of
       Some domain \<Rightarrow>
         Inr \<lparr>Domain = domain, Resolved = True, Method = ''company_map'', Candidates = []\<rparr>
     | None \<Rightarrow>
        (case find (verifyDomain dns) (generateDomainCandidates U cn) of
           Some candidate \<Rightarrow>
             Inr \<lparr>Domain = candidate, Resolved = True, Method = ''dns_verified'',
                  Candidates = generateDomainCandidates U cn\<rparr>
         | None \<Rightarrow>
             Inr \<lparr>Domain = cleanCompanyName U cn @ ''.com'', Resolved = True, Method = ''pattern'',
                  Candidates = generateDomainCandidates U cn\<rparr>))"
proof -
  obtain rest where "generateDomainCandidates U cn = (cleanCompanyName U cn @ ''.com'') # rest"
    using generateDomainCandidates_Cons by blast
  then show ?thesis
    by (simp add: ResolveDomain_def cn_def[symmetric] Let_def split: option.splits)
qed


text \<open>
  C7. For every outcome of the DNS lookups, \<open>ResolveDomain("example.com")\<close> returns the
  domain \<open>example.com\<close>, resolved, with the method \<open>direct\<close>, whatever the directory
  holds; with the directory that \<open>NewDomainResolver\<close> seeds, \<open>ResolveDomain("Zepto")\<close>
  returns \<open>zeptonow.com\<close> and \<open>ResolveDomain("Microsoft Inc")\<close> returns
  \<open>microsoft.com\<close>, both with the method \<open>company_map\<close>; and \<open>ResolveDomain("")\<close>
  returns not resolved, with the method \<open>none\<close>.
\<close>

theorem ResolveDomain_precedence_examples:
  "ResolveDomain U dns r ''example.com'' =
     Inr \<lparr>Domain = ''example.com'', Resolved = True, Method = ''direct'', Candidates = []\<rparr> \<and>
   ResolveDomain U dns NewDomainResolver ''Zepto'' =
     Inr \<lparr>Domain = ''zeptonow.com'', Resolved = True, Method = ''company_map'', Candidates = []\<rparr> \<and>
   ResolveDomain U dns NewDomainResolver ''Microsoft Inc'' =
     Inr \<lparr>Domain = ''microsoft.com'', Resolved = True, Method = ''company_map'', Candidates = []\<rparr> \<and>
   ResolveDomain U dns r '''' =
     Inr \<lparr>Domain = '''', Resolved = False, Method = ''none'', Candidates = []\<rparr>"
proof -
  have e1: "TrimSpace U (ToLower U ''example.com'') = ''example.com''" by code_simp
  have e2: "isDomain ''example.com''" by code_simp
  have z1: "TrimSpace U (ToLower U ''Zepto'') = ''zepto''" by code_simp
  have z2: "\<not> isDomain ''zepto''" by code_simp
  have z3: "normalizeCompanyName U ''zepto'' = ''zepto''" by code_simp
  have z4: "wellKnownCompanies ''zepto'' = Some ''zeptonow.com''" by code_simp
  have m1: "TrimSpace U (ToLower U ''Microsoft Inc'') = ''microsoft inc''" by code_simp
  have m2: "\<not> isDomain ''microsoft inc''" by code_simp
  have m3: "normalizeCompanyName U ''microsoft inc'' = ''microsoft''" by code_simp
  have m4: "wellKnownCompanies ''microsoft'' = Some ''microsoft.com''" by code_simp
  have n1: "TrimSpace U (ToLower U '''') = ''''" by code_simp
  have a: "ResolveDomain U dns r ''example.com'' =
     Inr \<lparr>Domain = ''example.com'', Resolved = True, Method = ''direct'', Candidates = []\<rparr>"
    by (simp add: ResolveDomain_cases e1 e2)
  have b: "ResolveDomain U dns NewDomainResolver ''Zepto'' =
     Inr \<lparr>Domain = ''zeptonow.com'', Resolved = True, Method = ''company_map'', Candidates = []\<rparr>"
    by (simp add: ResolveDomain_cases z1 z2 z3 z4 GetCompanyDomain_def NewDomainResolver_def)
  have c: "ResolveDomain U dns NewDomainResolver ''Microsoft Inc'' =
     Inr \<lparr>Domain = ''microsoft.com'', Resolved = True, Method = ''company_map'', Candidates = []\<rparr>"
    by (simp add: ResolveDomain_cases m1 m2 m3 m4 GetCompanyDomain_def NewDomainResolver_def)
  have d: "ResolveDomain U dns r '''' =
     Inr \<lparr>Domain = '''', Resolved = False, Method = ''none'', Candidates = []\<rparr>"
    by (simp add: ResolveDomain_cases n1)
  from a b c d show ?thesis by blast
qed

lemma find_verified_nonempty:
  "find (verifyDomain dns) (generateDomainCandidates U name) = Some c \<Longrightarrow> c \<noteq> []"
  by (metis candidate_nonempty find_Some_iff nth_mem)

text \<open>
  C10, amended. For every organization, directory and outcome of the DNS lookups,
  \<open>ResolveDomain\<close> returns (it does not panic: the list of candidates holds the ten of
  the TLDs at least). The result is resolved exactly when the organization, lowercased
  and trimmed (the string that the code tests), is not empty, and its method is \<open>none\<close>
  exactly when that string is empty. The domain of a resolved result is empty exactly
  when the directory holds the empty string for the name; so it is not empty when the
  directory holds no empty domain. The domain of the pattern fallback is the cleaned name
  followed by \<open>.com\<close>.
\<close>

theorem ResolveDomain_nonblank_resolves:
  fixes U dns r organization
  defines "cn \<equiv> TrimSpace U (ToLower U organization)"
  shows "\<exists>res. ResolveDomain U dns r organization = Inr res \<and>
     (Resolved res \<longleftrightarrow> cn \<noteq> []) \<and>
     (Method res = ''none'' \<longleftrightarrow> cn = []) \<and>
     (Domain res = [] \<longleftrightarrow>
        cn = [] \<or> (\<not> isDomain cn \<and> GetCompanyDomain U r cn = Some [])) \<and>
     (cn \<noteq> [] \<and> (\<forall>d\<in>ran (companyMap r). d \<noteq> []) \<longrightarrow> Domain res \<noteq> []) \<and>
     10 \<le> length (generateDomainCandidates U cn) \<and>
     (Method res = ''pattern'' \<longrightarrow> Domain res = cleanCompanyName U cn @ ''.com'')"
proof -
  have ran: "GetCompanyDomain U r cn = Some d \<Longrightarrow> d \<in> ran (companyMap r)" for d
    by (auto simp: GetCompanyDomain_def ran_def)
  show ?thesis
  proof (cases "cn = []")
    case True
    then show ?thesis
      using generateDomainCandidates_length[of U cn]
      by (simp add: ResolveDomain_cases cn_def[symmetric])
  next
    case False
    note nb = this
    show ?thesis
    proof (cases "isDomain cn")
      case True
      then show ?thesis
        using nb generateDomainCandidates_length[of U cn]
        by (simp add: ResolveDomain_cases cn_def[symmetric])
    next
      case False
      note nd = this
      show ?thesis
      proof (cases "GetCompanyDomain U r cn")
        case (Some d)
        then show ?thesis
          using nb nd ran[of d] generateDomainCandidates_length[of U cn]
          by (auto simp: ResolveDomain_cases cn_def[symmetric])
      next
        case None
        then show ?thesis
          using nb nd generateDomainCandidates_length[of U cn] find_verified_nonempty[of dns U cn]
          by (auto simp: ResolveDomain_cases cn_def[symmetric] split: option.splits)
      qed
    qed
  qed
qed

lemma no_dns_finds_nothing: "find (verifyDomain no_dns) cs = None"
  by (simp add: find_None_iff verifyDomain_def no_dns_def)

lemma wellKnownCompanies_nonempty: "\<forall>d\<in>ran wellKnownCompanies. d \<noteq> []"
proof -
  have "list_all (\<lambda>kv. snd kv \<noteq> []) wellKnownCompanies_list" by code_simp
  then show ?thesis
    by (auto simp: wellKnownCompanies_def ran_def list_all_iff dest!: map_of_SomeD)
qed

text \<open>A directory with an empty domain, for every value of the tables and every outcome
  of the DNS lookups.\<close>

lemma empty_directory_entry:
  "TrimSpace U ''Acme'' \<noteq> [] \<and>
   ResolveDomain U dns (AddCompanyDomain U NewDomainResolver ''Acme'' []) ''Acme'' =
     Inr \<lparr>Domain = [], Resolved = True, Method = ''company_map'', Candidates = []\<rparr>"
proof -
  have a: "TrimSpace U ''Acme'' \<noteq> []" by code_simp
  have b: "TrimSpace U (ToLower U ''Acme'') = ''acme''" by code_simp
  have c: "\<not> isDomain ''acme''" by code_simp
  have d: "normalizeCompanyName U ''acme'' = ''acme''" by code_simp
  have e: "normalizeCompanyName U ''Acme'' = ''acme''" by code_simp
  show ?thesis
    using a by (simp add: ResolveDomain_cases b c d e GetCompanyDomain_def AddCompanyDomain_def)
qed

text \<open>
  C10, as the claim states it, fails for a directory that holds an empty domain:
  \<open>AddCompanyDomain\<close> stores any string, and a hit in the directory returns what is
  stored.
\<close>

theorem ResolveDomain_empty_directory_entry_counterexample:
  "TrimSpace no_tables ''Acme'' \<noteq> [] \<and>
   ResolveDomain no_tables no_dns (AddCompanyDomain no_tables NewDomainResolver ''Acme'' []) ''Acme'' =
     Inr \<lparr>Domain = [], Resolved = True, Method = ''company_map'', Candidates = []\<rparr>"
  by (rule empty_directory_entry)

text \<open>
  The seeded directory holds no empty domain; a name that it does not hold resolves by
  the fallback.
\<close>

theorem ResolveDomain_nonblank_resolves_witness:
  "TrimSpace no_tables (ToLower no_tables ''Acme Robotics'') \<noteq> [] \<and>
   list_all (\<lambda>kv. snd kv \<noteq> []) wellKnownCompanies_list \<and>
   (case ResolveDomain no_tables no_dns NewDomainResolver ''Acme Robotics'' of
      Inl panic \<Rightarrow> False
    | Inr res \<Rightarrow> Resolved res \<and> Domain res \<noteq> [] \<and> Method res \<noteq> ''none'')"
proof -
  have a: "TrimSpace no_tables (ToLower no_tables ''Acme Robotics'') \<noteq> []" by code_simp
  have l: "list_all (\<lambda>kv. snd kv \<noteq> []) wellKnownCompanies_list" by code_simp
  have b: "\<forall>d\<in>ran (companyMap NewDomainResolver). d \<noteq> []"
    using wellKnownCompanies_nonempty by (simp add: NewDomainResolver_def)
  from ResolveDomain_nonblank_resolves[of no_tables no_dns NewDomainResolver "''Acme Robotics''"]
  obtain res where r: "ResolveDomain no_tables no_dns NewDomainResolver ''Acme Robotics'' = Inr res"
    and 1: "Resolved res \<longleftrightarrow> TrimSpace no_tables (ToLower no_tables ''Acme Robotics'') \<noteq> []"
    and 2: "Method res = ''none'' \<longleftrightarrow> TrimSpace no_tables (ToLower no_tables ''Acme Robotics'') = []"
    and 3: "TrimSpace no_tables (ToLower no_tables ''Acme Robotics'') \<noteq> [] \<and>
        (\<forall>d\<in>ran (companyMap NewDomainResolver). d \<noteq> []) \<longrightarrow> Domain res \<noteq> []"
    by blast
  from a b 1 2 3 have "Resolved res \<and> Domain res \<noteq> [] \<and> Method res \<noteq> ''none''" by blast
  with r a l show ?thesis by simp
qed

text \<open>
  C9. The claim holds of the design (\<open>AddCompanyDomain\<close> and the lookup share
  \<open>normalizeCompanyName\<close>) and fails on the code for a name that ends with white space:
  \<open>normalizeCompanyName\<close> trims the suffixes before the white space, and
  \<open>ResolveDomain\<close>, unlike \<open>AddCompanyDomain\<close>, trims the white space before it calls it.
  After \<open>AddCompanyDomain("Acme Inc ", "acmecorp.com")\<close> the key stored is \<open>acme inc\<close>,
  the key looked up by \<open>ResolveDomain("Acme Inc ")\<close> is \<open>acme\<close>, and the entry is missed,
  for every value of the tables: the method is \<open>dns_verified\<close> or \<open>pattern\<close>, never
  \<open>company_map\<close>, and with no DNS record the result is \<open>acme.com\<close> by the pattern
  fallback.
\<close>

theorem AddCompanyDomain_trailing_space_misses:
  "TrimSpace U (ToLower U ''Acme Inc '') = ''acme inc'' \<and>
   \<not> isDomain ''acme inc'' \<and>
   normalizeCompanyName U ''Acme Inc '' = ''acme inc'' \<and>
   normalizeCompanyName U ''acme inc'' = ''acme'' \<and>
   GetCompanyDomain U (AddCompanyDomain U NewDomainResolver ''Acme Inc '' ''acmecorp.com'')
     ''acme inc'' = None \<and>
   map_sum id Method
     (ResolveDomain U dns
        (AddCompanyDomain U NewDomainResolver ''Acme Inc '' ''acmecorp.com'') ''Acme Inc '')
     \<in> {Inr ''dns_verified'', Inr ''pattern''} \<and>
   map_sum id (\<lambda>res. (Domain res, Resolved res, Method res))
     (ResolveDomain U no_dns
        (AddCompanyDomain U NewDomainResolver ''Acme Inc '' ''acmecorp.com'') ''Acme Inc '') =
     Inr (''acme.com'', True, ''pattern'')"
proof -
  let ?r = "AddCompanyDomain U NewDomainResolver ''Acme Inc '' ''acmecorp.com''"
  have b: "TrimSpace U (ToLower U ''Acme Inc '') = ''acme inc''" by code_simp
  have c: "\<not> isDomain ''acme inc''" by code_simp
  have d: "normalizeCompanyName U ''acme inc'' = ''acme''" by code_simp
  have e: "normalizeCompanyName U ''Acme Inc '' = ''acme inc''" by code_simp
  have f: "wellKnownCompanies ''acme'' = None" by code_simp
  have g: "cleanCompanyName U ''acme inc'' = ''acme''" by code_simp
  have get: "GetCompanyDomain U ?r ''acme inc'' = None"
    by (simp add: d e f GetCompanyDomain_def AddCompanyDomain_def NewDomainResolver_def)
  have any: "map_sum id Method (ResolveDomain U dns ?r ''Acme Inc '')
     \<in> {Inr ''dns_verified'', Inr ''pattern''}"
    by (simp add: ResolveDomain_cases b c get split: option.splits)
  have none: "map_sum id (\<lambda>res. (Domain res, Resolved res, Method res))
     (ResolveDomain U no_dns ?r ''Acme Inc '') = Inr (''acme.com'', True, ''pattern'')"
    by (simp add: ResolveDomain_cases b c g get no_dns_finds_nothing)
  from b c d e get any none show ?thesis by simp
qed


subsection \<open>Generation\<close>

lemma Split_not_Nil [simp]: "Split s c \<noteq> []"
  by (induction s) (auto split: list.splits)

lemma Join_Cons_char: "ws \<noteq> [] \<Longrightarrow> Join ((x # w) # tl ws') c = x # Join (w # tl ws') c"
  by (cases "tl ws'") simp_all

lemma Join_Split: "Join (Split s c) c = s"
proof (induction s)
  case Nil
  then show ?case by simp
next
  case (Cons x xs)
  obtain w ws where sp: "Split xs c = w # ws"
    by (cases "Split xs c") simp_all
  show ?case
  proof (cases "x = c")
    case True
    then show ?thesis using Cons sp by simp
  next
    case False
    then show ?thesis using Cons sp by (cases ws) simp_all
  qed
qed

lemma HasPrefix_dot: "HasPrefix d ''.'' \<longleftrightarrow> d \<noteq> [] \<and> hd d = CHR ''.''"
  by (cases d) (auto simp: HasPrefix_def)

lemma HasSuffix_dot: "HasSuffix d ''.'' \<longleftrightarrow> d \<noteq> [] \<and> last d = CHR ''.''"
proof (cases d rule: rev_cases)
  case Nil
  then show ?thesis by (simp add: HasSuffix_def)
next
  case (snoc ys y)
  then show ?thesis by (auto simp: HasSuffix_def)
qed

lemma runes_length_le: "length (runes s) \<le> length s"
proof (induction s rule: runes.induct)
  case 1
  then show ?case by simp
next
  case (2 c cs)
  have "length (drop (snd (DecodeRuneInString (c # cs)) - 1) cs) \<le> length cs"
    by simp
  with 2 show ?case by simp
qed

lemma runes_not_Nil: "s \<noteq> [] \<Longrightarrow> runes s \<noteq> []"
  by (cases s) simp_all

lemma isValidEmailFormat_spec:
  assumes "isValidEmailFormat U email"
  shows "email_format_spec U email"
proof -
  from assms obtain local domain where sp: "Split email (CHR ''@'') = [local, domain]"
    by (auto simp: isValidEmailFormat_def split: if_splits list.splits)
  have e: "email = local @ ''@'' @ domain"
    using Join_Split[of email "CHR ''@''"] sp by simp
  from assms sp have len: "local \<noteq> []" "length local \<le> 64" "domain \<noteq> []" "length domain \<le> 253"
    and loc: "list_all (isValidEmailChar U) (map fst (runes local))"
    and pre: "\<not> HasPrefix domain ''.''" "\<not> HasSuffix domain ''.''"
    and n: "2 \<le> length (Split domain (CHR ''.''))"
    and labs: "list_all (\<lambda>part. part \<noteq> [] \<and>
          list_all (\<lambda>char. IsLetter U char \<or> IsDigit U char \<or> char = of_char (CHR ''-''))
            (map fst (runes part)))
        (Split domain (CHR ''.''))"
    by (auto simp: isValidEmailFormat_def Let_def split: if_splits)
  have r1: "1 \<le> length (runes local)" "length (runes local) \<le> 64"
    using len(1,2) runes_not_Nil[of local] runes_length_le[of local]
    by (simp_all add: Suc_le_eq)
  have r2: "length (runes domain) \<le> 253"
    using len(4) runes_length_le[of domain] by simp
  have 1: "\<forall>c\<in>set (map fst (runes local)). IsLetter U c \<or> IsDigit U c \<or>
      c \<in> of_char ` {CHR ''.'', CHR ''_'', CHR ''-'', CHR ''+''}"
    using loc unfolding list_all_iff isValidEmailChar_def by blast
  have 2: "\<forall>label\<in>set (Split domain (CHR ''.'')). label \<noteq> [] \<and>
      (\<forall>c\<in>set (map fst (runes label)). IsLetter U c \<or> IsDigit U c \<or> c = of_char (CHR ''-''))"
    using labs unfolding list_all_iff by blast
  have 3: "hd domain \<noteq> CHR ''.''" "last domain \<noteq> CHR ''.''"
    using pre len(3) by (simp_all add: HasPrefix_dot HasSuffix_dot)
  have 4: "domain = Join (Split domain (CHR ''.'')) (CHR ''.'')"
    by (simp add: Join_Split)
  show ?thesis
    unfolding email_format_spec_def
    using e len r1 r2 1 2 3 4 n by blast
qed

lemma remdups_snoc: "remdups (xs @ [e]) = remdups (filter (\<lambda>x. x \<noteq> e) xs) @ [e]"
  by (induction xs) auto

lemma dedup_loop_emails:
  "map ep_Email (dedup_loop U seen acc pl) =
   map ep_Email acc @
   rev (remdups (rev (filter (\<lambda>e. e \<notin> seen \<and> isValidEmailFormat U e) (map fst pl))))"
proof (induction pl arbitrary: seen acc)
  case Nil
  then show ?case by simp
next
  case (Cons a pl)
  obtain e t where a: "a = (e, t)" by (cases a)
  show ?case
  proof (cases "e \<notin> seen \<and> isValidEmailFormat U e")
    case True
    have f: "filter (\<lambda>x. x \<noteq> e) (rev (filter (\<lambda>e. e \<notin> seen \<and> isValidEmailFormat U e) (map fst pl))) =
          rev (filter (\<lambda>x. x \<notin> insert e seen \<and> isValidEmailFormat U x) (map fst pl))"
      by (simp add: rev_filter[symmetric] conj_ac)
    show ?thesis
      using True by (simp add: a Cons.IH remdups_snoc f)
  next
    case False
    then show ?thesis by (auto simp: a Cons.IH)
  qed
qed

lemma dedup_loop_mem:
  "p \<in> set (dedup_loop U seen acc pl) \<Longrightarrow>
   p \<in> set acc \<or>
   (ep_Email p \<notin> seen \<and> isValidEmailFormat U (ep_Email p) \<and>
    map_of pl (ep_Email p) = Some (ep_Pattern p))"
proof (induction pl arbitrary: seen acc)
  case Nil
  then show ?case by simp
next
  case (Cons a pl)
  obtain e t where a: "a = (e, t)" by (cases a)
  show ?case
  proof (cases "e \<notin> seen \<and> isValidEmailFormat U e")
    case True
    with Cons.prems have "p \<in> set (dedup_loop U (insert e seen) (acc @ [\<lparr>ep_Email = e, ep_Pattern = t\<rparr>]) pl)"
      by (simp add: a)
    from Cons.IH[OF this] True show ?thesis by (auto simp: a)
  next
    case False
    with Cons.prems have "p \<in> set (dedup_loop U seen acc pl)"
      by (auto simp: a)
    from Cons.IH[OF this] False show ?thesis by (auto simp: a)
  qed
qed


lemma dedup_loop_acc: "dedup_loop U seen acc pl = acc @ dedup_loop U seen [] pl"
proof (induction pl arbitrary: seen acc)
  case Nil
  then show ?case by simp
next
  case (Cons a pl)
  obtain e t where a: "a = (e, t)" by (cases a)
  show ?case
    using Cons.IH[of "insert e seen" "acc @ [\<lparr>ep_Email = e, ep_Pattern = t\<rparr>]"]
      Cons.IH[of "insert e seen" "[\<lparr>ep_Email = e, ep_Pattern = t\<rparr>]"] Cons.IH[of seen acc]
    by (simp add: a)
qed

lemma dedup_loop_Cons_valid:
  "e \<notin> seen \<Longrightarrow> isValidEmailFormat U e \<Longrightarrow>
   dedup_loop U seen [] ((e, t) # rest) =
   \<lparr>ep_Email = e, ep_Pattern = t\<rparr> # dedup_loop U (insert e seen) [] rest"
  using dedup_loop_acc[of U "insert e seen" "[\<lparr>ep_Email = e, ep_Pattern = t\<rparr>]" rest] by simp

lemma foldl_append_loop: "foldl (\<lambda>pl i. pl @ g i) xs is = xs @ concat (map g is)"
  by (induction "is" arbitrary: xs) simp_all

lemma patternList_first_three:
  "\<exists>rest. patternList f l fi li d =
     (f @ ''.'' @ l @ ''@'' @ d, ''firstname.lastname'') #
     (f @ l @ ''@'' @ d, ''firstnamelastname'') #
     (fi @ ''.'' @ l @ ''@'' @ d, ''f.lastname'') # rest"
  by (simp add: patternList_def foldl_append_loop base_patterns_def)

lemma GenerateEmailPatterns_normalized:
  fixes U firstName lastName domain
  defines "f \<equiv> TrimSpace U (ToLower U firstName)"
    and "l \<equiv> TrimSpace U (ToLower U lastName)"
    and "d \<equiv> TrimSpace U (ToLower U domain)"
  shows "GenerateEmailPatterns U firstName lastName domain =
    (if f = [] \<or> l = [] \<or> d = [] then []
     else dedup_loop U {} [] (patternList f l (initial_of f) (initial_of l) d))"
  by (simp add: GenerateEmailPatterns_def Let_def f_def l_def d_def)

text \<open>
  C6. For every first name, last name and domain (and every value of the tables), every
  email that \<open>GenerateEmailPatterns\<close> returns passes \<open>isValidEmailFormat\<close>, and so has the
  format that the specification describes; its pattern is the one of the first entry of
  \<open>patternList\<close> with that email; no email is returned twice; and the emails returned are
  the valid emails of \<open>patternList\<close> in its order, each at its first occurrence
  (\<^const>\<open>remdups\<close> keeps the last occurrence of an element, so between the two
  reversals it keeps the first).
\<close>

theorem GenerateEmailPatterns_valid_distinct_first_occurrence:
  fixes U firstName lastName domain
  defines "f \<equiv> TrimSpace U (ToLower U firstName)"
    and "l \<equiv> TrimSpace U (ToLower U lastName)"
    and "d \<equiv> TrimSpace U (ToLower U domain)"
  shows
    "(\<forall>p\<in>set (GenerateEmailPatterns U firstName lastName domain).
        isValidEmailFormat U (ep_Email p) \<and> email_format_spec U (ep_Email p) \<and>
        map_of (patternList f l (initial_of f) (initial_of l) d) (ep_Email p) = Some (ep_Pattern p)) \<and>
     distinct (map ep_Email (GenerateEmailPatterns U firstName lastName domain)) \<and>
     (f \<noteq> [] \<and> l \<noteq> [] \<and> d \<noteq> [] \<longrightarrow>
        map ep_Email (GenerateEmailPatterns U firstName lastName domain) =
        rev (remdups (rev (filter (isValidEmailFormat U)
          (map fst (patternList f l (initial_of f) (initial_of l) d))))))"
proof -
  let ?pl = "patternList f l (initial_of f) (initial_of l) d"
  let ?G = "GenerateEmailPatterns U firstName lastName domain"
  have G: "?G = (if f = [] \<or> l = [] \<or> d = [] then [] else dedup_loop U {} [] ?pl)"
    unfolding f_def l_def d_def by (rule GenerateEmailPatterns_normalized)
  have mem: "isValidEmailFormat U (ep_Email p) \<and> email_format_spec U (ep_Email p) \<and>
        map_of ?pl (ep_Email p) = Some (ep_Pattern p)" if "p \<in> set ?G" for p
  proof -
    from that have "p \<in> set (dedup_loop U {} [] ?pl)"
      by (simp add: G split: if_splits)
    from dedup_loop_mem[OF this] show ?thesis
      by (simp add: isValidEmailFormat_spec)
  qed
  have emails: "map ep_Email (dedup_loop U {} [] ?pl) =
      rev (remdups (rev (filter (isValidEmailFormat U) (map fst ?pl))))"
    by (simp add: dedup_loop_emails)
  have dist: "distinct (map ep_Email ?G)"
    by (simp add: G emails)
  have eq: "f \<noteq> [] \<and> l \<noteq> [] \<and> d \<noteq> [] \<longrightarrow>
        map ep_Email ?G = rev (remdups (rev (filter (isValidEmailFormat U) (map fst ?pl))))"
    by (simp add: G emails)
  from mem dist eq show ?thesis by blast
qed

lemma john_doe_first_three:
  "\<exists>rest. GenerateEmailPatterns U ''John'' ''Doe'' ''example.com'' =
     \<lparr>ep_Email = ''john.doe@example.com'', ep_Pattern = ''firstname.lastname''\<rparr> #
     \<lparr>ep_Email = ''johndoe@example.com'', ep_Pattern = ''firstnamelastname''\<rparr> #
     \<lparr>ep_Email = ''j.doe@example.com'', ep_Pattern = ''f.lastname''\<rparr> # rest"
proof -
  have n: "TrimSpace U (ToLower U ''John'') = ''john''" "TrimSpace U (ToLower U ''Doe'') = ''doe''"
    "TrimSpace U (ToLower U ''example.com'') = ''example.com''"
    by code_simp+
  have i: "initial_of ''john'' = ''j''" "initial_of ''doe'' = ''d''"
    by code_simp+
  have v: "isValidEmailFormat U ''john.doe@example.com''" "isValidEmailFormat U ''johndoe@example.com''"
    "isValidEmailFormat U ''j.doe@example.com''"
    by code_simp+
  obtain rest where pl: "patternList ''john'' ''doe'' ''j'' ''d'' ''example.com'' =
     (''john.doe@example.com'', ''firstname.lastname'') #
     (''johndoe@example.com'', ''firstnamelastname'') #
     (''j.doe@example.com'', ''f.lastname'') # rest"
    using patternList_first_three[of "''john''" "''doe''" "''j''" "''d''" "''example.com''"] by auto
  have "dedup_loop U {} [] (patternList ''john'' ''doe'' ''j'' ''d'' ''example.com'') =
     \<lparr>ep_Email = ''john.doe@example.com'', ep_Pattern = ''firstname.lastname''\<rparr> #
     \<lparr>ep_Email = ''johndoe@example.com'', ep_Pattern = ''firstnamelastname''\<rparr> #
     \<lparr>ep_Email = ''j.doe@example.com'', ep_Pattern = ''f.lastname''\<rparr> #
     dedup_loop U {''j.doe@example.com'', ''johndoe@example.com'', ''john.doe@example.com''} [] rest"
    unfolding pl
    by (subst dedup_loop_Cons_valid, simp, rule v)+ simp
  then show ?thesis
    by (simp add: GenerateEmailPatterns_normalized n i)
qed


text \<open>
  The first pattern for John Doe at example.com is in the list that is returned.
\<close>

theorem GenerateEmailPatterns_valid_distinct_first_occurrence_witness:
  "\<lparr>ep_Email = ''john.doe@example.com'', ep_Pattern = ''firstname.lastname''\<rparr>
     \<in> set (GenerateEmailPatterns no_tables ''John'' ''Doe'' ''example.com'') \<and>
   isValidEmailFormat no_tables ''john.doe@example.com'' \<and>
   email_format_spec no_tables ''john.doe@example.com'' \<and>
   distinct (map ep_Email (GenerateEmailPatterns no_tables ''John'' ''Doe'' ''example.com'')) \<and>
   TrimSpace no_tables (ToLower no_tables ''John'') = ''john'' \<and>
   TrimSpace no_tables (ToLower no_tables ''Doe'') = ''doe'' \<and>
   TrimSpace no_tables (ToLower no_tables ''example.com'') = ''example.com'' \<and>
   map ep_Email (GenerateEmailPatterns no_tables ''John'' ''Doe'' ''example.com'') =
     rev (remdups (rev (filter (isValidEmailFormat no_tables)
       (map fst (patternList ''john'' ''doe'' ''j'' ''d'' ''example.com'')))))"
proof -
  let ?p = "\<lparr>ep_Email = ''john.doe@example.com'', ep_Pattern = ''firstname.lastname''\<rparr>"
  let ?G = "GenerateEmailPatterns no_tables ''John'' ''Doe'' ''example.com''"
  have n: "TrimSpace no_tables (ToLower no_tables ''John'') = ''john''" "TrimSpace no_tables (ToLower no_tables ''Doe'') = ''doe''"
    "TrimSpace no_tables (ToLower no_tables ''example.com'') = ''example.com''"
    by code_simp+
  have i: "initial_of ''john'' = ''j''" "initial_of ''doe'' = ''d''"
    by code_simp+
  have m: "?p \<in> set ?G"
    using john_doe_first_three[of no_tables] by auto
  note t = GenerateEmailPatterns_valid_distinct_first_occurrence
    [of no_tables "''John''" "''Doe''" "''example.com''"]
  from t m have a: "isValidEmailFormat no_tables (ep_Email ?p) \<and> email_format_spec no_tables (ep_Email ?p)"
    by blast
  from t have b: "distinct (map ep_Email ?G)"
    by blast
  from t have "map ep_Email ?G =
     rev (remdups (rev (filter (isValidEmailFormat no_tables)
       (map fst (patternList (TrimSpace no_tables (ToLower no_tables ''John'')) (TrimSpace no_tables (ToLower no_tables ''Doe''))
          (initial_of (TrimSpace no_tables (ToLower no_tables ''John''))) (initial_of (TrimSpace no_tables (ToLower no_tables ''Doe'')))
          (TrimSpace no_tables (ToLower no_tables ''example.com'')))))))"
    using n by simp
  then have c: "map ep_Email ?G =
     rev (remdups (rev (filter (isValidEmailFormat no_tables)
       (map fst (patternList ''john'' ''doe'' ''j'' ''d'' ''example.com'')))))"
    by (simp add: n i)
  from m a b c n show ?thesis by simp
qed


subsection \<open>The service\<close>

lemma ResolveDomain_Inr: "\<exists>res. ResolveDomain U dns r organization = Inr res"
  by (simp add: ResolveDomain_cases split: option.splits)

lemma limit_patterns_Nil [simp]: "limit_patterns n [] = []"
  by (simp add: limit_patterns_def)

lemma is_found_unknown [simp]: "\<not> is_found (unknown_result e)"
  by (simp add: is_found_def unknown_result_def)

lemma collect_found_Inl:
  "collect_found m acc rs = Inl err \<Longrightarrow> err = panic_nil_pointer_dereference"
  by (induction m acc rs rule: collect_found.induct) (auto split: if_splits)

lemma sortByConfidence_Nil [simp]: "sortByConfidence [] = []"
  by (simp add: sortByConfidence_eq)

lemma map_nth_fun: "map (\<lambda>i. f (xs ! i)) [0..<length xs] = map f xs"
  by (rule nth_equalityI) simp_all

lemma CLI_VerifyEmailsBatch_eq:
  assumes "is_schedule (length emails) schedule"
  shows "CLI_VerifyEmailsBatch world schedule emails =
     (Inr (map (\<lambda>i. Some (CLI_verify_inline (world i (emails ! i)) (emails ! i))) [0..<length emails]),
      map ((!) emails) schedule)"
proof (cases "emails = []")
  case True
  then show ?thesis using assms by (simp add: CLI_VerifyEmailsBatch_def is_schedule_def)
next
  case False
  have t1: "\<And>st idx. fst (CLI_task world emails st idx) =
      (fst st)[idx := Some (CLI_verify_inline (world idx (emails ! idx)) (emails ! idx))]"
    by (simp add: CLI_task_def Let_def)
  have t2: "\<And>st idx. snd (CLI_task world emails st idx) = snd st @ [emails ! idx]"
    by (simp add: CLI_task_def Let_def)
  show ?thesis
    using False run_all_slots[of "CLI_task world emails" _ "length emails" schedule "[]", OF t1 assms]
      run_log[of "CLI_task world emails" "(!) emails" "(replicate (length emails) None, [])" schedule, OF t2]
    by (simp add: CLI_VerifyEmailsBatch_def Let_def)
qed

lemma batch_never_Inl:
  "\<not> isl (fst (HTTP_VerifyEmailsBatch world sch emails))"
  "\<not> isl (fst (CLI_VerifyEmailsBatch cworld sch emails))"
  by (simp_all add: HTTP_VerifyEmailsBatch_def CLI_VerifyEmailsBatch_def Let_def)

lemma HTTPVerifier_all_fail:
  assumes "is_schedule (length emails) (schedule (length emails))"
    and "\<forall>i<length emails. isl (HTTP_VerifyEmail (world i (emails ! i)) (emails ! i))"
  shows "HTTPVerifier world schedule emails =
    (Inr (map (\<lambda>e. Some (unknown_result e)) emails), map ((!) emails) (schedule (length emails)))"
proof -
  have "map (\<lambda>i. Some (HTTP_verify_or_unknown (world i (emails ! i)) (emails ! i))) [0..<length emails] =
        map (\<lambda>i. Some (unknown_result (emails ! i))) [0..<length emails]"
    using assms(2) by (auto simp: HTTP_verify_or_unknown_def isl_def)
  then show ?thesis
    using map_nth_fun[of "\<lambda>e. Some (unknown_result e)" emails]
    by (simp add: HTTPVerifier_def HTTP_VerifyEmailsBatch_eq[OF assms(1)])
qed

lemma CLIVerifier_all_fail:
  assumes "is_schedule (length emails) (schedule (length emails))"
    and "\<forall>i<length emails. cworld i (emails ! i) = ExecFailed"
  shows "CLIVerifier cworld schedule emails =
    (Inr (map (\<lambda>e. Some (unknown_result e)) emails), map ((!) emails) (schedule (length emails)))"
proof -
  have "map (\<lambda>i. Some (CLI_verify_inline (cworld i (emails ! i)) (emails ! i))) [0..<length emails] =
        map (\<lambda>i. Some (unknown_result (emails ! i))) [0..<length emails]"
    using assms(2) by (auto simp: CLI_verify_inline_def)
  then show ?thesis
    using map_nth_fun[of "\<lambda>e. Some (unknown_result e)" emails]
    by (simp add: CLIVerifier_def CLI_VerifyEmailsBatch_eq[OF assms(1)])
qed

lemma collect_found_unknown:
  "collect_found m [] (map (\<lambda>e. Some (unknown_result e)) emails) = Inr []"
proof -
  have "collect_found m [] (map Some (map unknown_result emails)) = Inr []"
    by (simp only: collect_found_eq) (simp add: filter_map o_def)
  then show ?thesis by (simp add: o_def)
qed

lemma FindEmails_all_unknown:
  assumes "\<And>emails. v emails =
     (Inr (map (\<lambda>e. Some (unknown_result e)) emails), map ((!) emails) (schedule (length emails)))"
  shows "\<exists>resp. fst (FindEmails U dns v s req) = Inr resp \<and> FoundEmails resp = [] \<and>
     TotalFound resp = 0 \<and>
     (length (schedule (TotalChecked resp)) = TotalChecked resp \<longrightarrow>
        TotalChecked resp = length (snd (FindEmails U dns v s req)))"
proof -
  obtain res where res: "ResolveDomain U dns (domainResolver s) (Company req) = Inr res"
    using ResolveDomain_Inr by blast
  show ?thesis
    by (simp add: FindEmails_def res Let_def assms collect_found_unknown)
qed

lemma FindEmails_Inl:
  assumes "fst (FindEmails U dns v s req) = Inl err"
  shows "err = panic_nil_pointer_dereference \<or> (\<exists>emails. fst (v emails) = Inl err)"
proof -
  obtain res where res: "ResolveDomain U dns (domainResolver s) (Company req) = Inr res"
    using ResolveDomain_Inr by blast
  let ?patterns = "limit_patterns (maxPatterns s)
      (GenerateEmailPatterns U (FirstName req) (LastName req) (Domain res))"
  obtain out calls where v: "v (map ep_Email ?patterns) = (out, calls)"
    by (cases "v (map ep_Email ?patterns)")
  show ?thesis
  proof (cases out)
    case (Inl e)
    with assms res v have "e = err \<or> False"
      by (auto simp: FindEmails_def Let_def split: if_splits)
    with Inl v show ?thesis by (metis fst_conv)
  next
    case (Inr rs)
    with assms res v show ?thesis
      by (auto simp: FindEmails_def Let_def split: if_splits sum.splits dest: collect_found_Inl)
  qed
qed


lemma is_schedule_length: "is_schedule n sch \<Longrightarrow> length sch = n"
  by (metis is_schedule_def distinct_card card_atLeastLessThan diff_zero)

lemma in_order_schedule: "is_schedule n (in_order n)"
  by (simp add: is_schedule_def in_order_def)

text \<open>
  C8. When the first name, the last name or the domain is empty after lowercasing and
  trimming, \<open>GenerateEmailPatterns\<close> returns the empty list. So \<open>FindEmails\<close>, for a request
  whose first or last name is such, or whose organization resolves to such a domain,
  returns a response and no error, with no found emails, \<open>TotalChecked = 0\<close> and
  \<open>TotalFound = 0\<close>, and nothing is given to the oracle, whatever the verifier is.
\<close>

theorem blank_names_give_no_candidates:
  "(TrimSpace U (ToLower U firstName) = [] \<or> TrimSpace U (ToLower U lastName) = [] \<or>
    TrimSpace U (ToLower U domain) = [] \<longrightarrow>
      GenerateEmailPatterns U firstName lastName domain = []) \<and>
   (TrimSpace U (ToLower U (FirstName req)) = [] \<or> TrimSpace U (ToLower U (LastName req)) = [] \<or>
    (\<exists>res. ResolveDomain U dns (domainResolver s) (Company req) = Inr res \<and>
           TrimSpace U (ToLower U (Domain res)) = []) \<longrightarrow>
      (\<exists>resp. FindEmails U dns VerifyEmailsBatch s req = (Inr resp, []) \<and>
              FoundEmails resp = [] \<and> TotalChecked resp = 0 \<and> TotalFound resp = 0))"
proof -
  have gen: "TrimSpace U (ToLower U f) = [] \<or> TrimSpace U (ToLower U l) = [] \<or> TrimSpace U (ToLower U d) = [] \<Longrightarrow>
      GenerateEmailPatterns U f l d = []" for f l d
    by (auto simp: GenerateEmailPatterns_normalized)
  obtain res where res: "ResolveDomain U dns (domainResolver s) (Company req) = Inr res"
    using ResolveDomain_Inr by blast
  have find: "\<exists>resp. FindEmails U dns VerifyEmailsBatch s req = (Inr resp, []) \<and>
              FoundEmails resp = [] \<and> TotalChecked resp = 0 \<and> TotalFound resp = 0"
    if "TrimSpace U (ToLower U (FirstName req)) = [] \<or> TrimSpace U (ToLower U (LastName req)) = [] \<or>
        TrimSpace U (ToLower U (Domain res)) = []"
  proof -
    from that have "GenerateEmailPatterns U (FirstName req) (LastName req) (Domain res) = []"
      by (rule gen)
    then show ?thesis
      by (simp add: FindEmails_def res Let_def)
  qed
  from gen find res show ?thesis by auto
qed

text \<open>
  A request whose first name is one space.
\<close>

theorem blank_names_give_no_candidates_witness:
  "TrimSpace no_tables (ToLower no_tables (FirstName blank_doe)) = [] \<and>
   GenerateEmailPatterns no_tables (FirstName blank_doe) (LastName blank_doe) ''example.com'' = [] \<and>
   snd (FindEmails no_tables no_dns (HTTPVerifier all_fail in_order) (seeded_service 0) blank_doe) = [] \<and>
   map_sum id (\<lambda>resp. (FoundEmails resp, TotalChecked resp, TotalFound resp))
     (fst (FindEmails no_tables no_dns (HTTPVerifier all_fail in_order) (seeded_service 0) blank_doe)) =
     Inr ([], 0, 0)"
proof -
  have b: "TrimSpace no_tables (ToLower no_tables (FirstName blank_doe)) = []"
    by (simp add: blank_doe_def) code_simp
  note t = blank_names_give_no_candidates
    [of no_tables "FirstName blank_doe" "LastName blank_doe" "''example.com''" blank_doe no_dns
        "seeded_service 0" "HTTPVerifier all_fail in_order"]
  from t b have g: "GenerateEmailPatterns no_tables (FirstName blank_doe) (LastName blank_doe) ''example.com'' = []"
    by blast
  from t b obtain resp where
    "FindEmails no_tables no_dns (HTTPVerifier all_fail in_order) (seeded_service 0) blank_doe = (Inr resp, [])"
    "FoundEmails resp = []" "TotalChecked resp = 0" "TotalFound resp = 0"
    by blast
  with b g show ?thesis by simp
qed

text \<open>The oracle whose transport always fails, for every value of the tables and every
  outcome of the DNS lookups.\<close>

lemma all_fail_run:
  "HTTP_VerifyEmail (all_fail 0 ''john.doe@example.com'') ''john.doe@example.com'' =
     Inl failed_to_make_request \<and>
   HTTP_VerifyEmail (all_fail 1 ''johndoe@example.com'') ''johndoe@example.com'' =
     Inl failed_to_make_request \<and>
   HTTPVerifier all_fail in_order [''john.doe@example.com'', ''johndoe@example.com''] =
     (Inr [Some (unknown_result ''john.doe@example.com''),
           Some (unknown_result ''johndoe@example.com'')],
      [''john.doe@example.com'', ''johndoe@example.com'']) \<and>
   FindEmails U dns (HTTPVerifier all_fail in_order) (seeded_service 2) john_doe =
     (Inr \<lparr>FoundEmails = [], TotalChecked = 2, TotalFound = 0, resp_Domain = ''example.com'',
           DomainResolved = True, Request = john_doe\<rparr>,
      [''john.doe@example.com'', ''johndoe@example.com''])"
proof -
  let ?emails = "[''john.doe@example.com'', ''johndoe@example.com'']"
  have f: "HTTP_VerifyEmail (all_fail i e) e = Inl failed_to_make_request" for i e
    by (simp add: all_fail_def HTTP_VerifyEmail_def)
  have sch: "is_schedule (length ?emails) (in_order (length ?emails))"
    by (rule in_order_schedule)
  have allf: "\<forall>i<length ?emails. isl (HTTP_VerifyEmail (all_fail i (?emails ! i)) (?emails ! i))"
    by (simp add: f)
  have batch: "HTTPVerifier all_fail in_order ?emails =
     (Inr [Some (unknown_result ''john.doe@example.com''),
           Some (unknown_result ''johndoe@example.com'')], ?emails)"
    using HTTPVerifier_all_fail[of ?emails in_order all_fail] sch allf by (simp add: in_order_def)
  have e1: "TrimSpace U (ToLower U ''Example.com'') = ''example.com''" by code_simp
  have e2: "isDomain ''example.com''" by code_simp
  have res: "ResolveDomain U dns NewDomainResolver ''Example.com'' =
     Inr \<lparr>Domain = ''example.com'', Resolved = True, Method = ''direct'', Candidates = []\<rparr>"
    by (simp add: ResolveDomain_cases e1 e2)
  obtain rest where g: "GenerateEmailPatterns U ''John'' ''Doe'' ''example.com'' =
     \<lparr>ep_Email = ''john.doe@example.com'', ep_Pattern = ''firstname.lastname''\<rparr> #
     \<lparr>ep_Email = ''johndoe@example.com'', ep_Pattern = ''firstnamelastname''\<rparr> #
     \<lparr>ep_Email = ''j.doe@example.com'', ep_Pattern = ''f.lastname''\<rparr> # rest"
    using john_doe_first_three[of U] by blast
  have lim: "limit_patterns 2 (GenerateEmailPatterns U ''John'' ''Doe'' ''example.com'') =
     [\<lparr>ep_Email = ''john.doe@example.com'', ep_Pattern = ''firstname.lastname''\<rparr>,
      \<lparr>ep_Email = ''johndoe@example.com'', ep_Pattern = ''firstnamelastname''\<rparr>]"
    by (simp add: g limit_patterns_def)
  have c: "collect_found m [] [Some (unknown_result ''john.doe@example.com''),
           Some (unknown_result ''johndoe@example.com'')] = Inr []" for m
    by simp
  have find: "FindEmails U dns (HTTPVerifier all_fail in_order) (seeded_service 2) john_doe =
     (Inr \<lparr>FoundEmails = [], TotalChecked = 2, TotalFound = 0, resp_Domain = ''example.com'',
           DomainResolved = True, Request = john_doe\<rparr>, ?emails)"
    by (simp add: FindEmails_def seeded_service_def john_doe_def res lim batch c Let_def)
  from f batch find show ?thesis by simp
qed

text \<open>
  C1, as the claim states it, fails: with an oracle whose transport fails for every
  email, the batch returns the unknown result for each email and no error, and
  \<open>FindEmails\<close> returns a response: two emails checked, none found.
\<close>

theorem VerifyEmailsBatch_all_fail_counterexample:
  "HTTP_VerifyEmail (all_fail 0 ''john.doe@example.com'') ''john.doe@example.com'' =
     Inl failed_to_make_request \<and>
   HTTP_VerifyEmail (all_fail 1 ''johndoe@example.com'') ''johndoe@example.com'' =
     Inl failed_to_make_request \<and>
   HTTPVerifier all_fail in_order [''john.doe@example.com'', ''johndoe@example.com''] =
     (Inr [Some (unknown_result ''john.doe@example.com''),
           Some (unknown_result ''johndoe@example.com'')],
      [''john.doe@example.com'', ''johndoe@example.com'']) \<and>
   FindEmails no_tables no_dns (HTTPVerifier all_fail in_order) (seeded_service 2) john_doe =
     (Inr \<lparr>FoundEmails = [], TotalChecked = 2, TotalFound = 0, resp_Domain = ''example.com'',
           DomainResolved = True, Request = john_doe\<rparr>,
      [''john.doe@example.com'', ''johndoe@example.com''])"
  by (rule all_fail_run)

text \<open>
  C1, amended. \<open>VerifyEmailsBatch\<close> of neither realisation returns an error. When the
  call of the oracle fails for every email of the batch (for the CLI: the process cannot
  run), the batch returns the unknown result for every email, and \<open>FindEmails\<close> returns a
  response and no error: no found emails, \<open>TotalFound = 0\<close>, and \<open>TotalChecked\<close> the number
  of emails that were given to the oracle. \<open>FindEmails\<close> returns an error only when the
  batch function of its verifier returns that error (or a nil result, on which it
  panics).
\<close>

theorem VerifyEmailsBatch_never_fails:
  assumes "\<forall>n. is_schedule n (schedule n)"
  shows
    "\<not> isl (fst (HTTPVerifier world schedule emails)) \<and>
     \<not> isl (fst (CLIVerifier cworld schedule emails)) \<and>
     ((\<forall>i<length emails. isl (HTTP_VerifyEmail (world i (emails ! i)) (emails ! i))) \<longrightarrow>
        fst (HTTPVerifier world schedule emails) = Inr (map (\<lambda>e. Some (unknown_result e)) emails)) \<and>
     ((\<forall>i<length emails. cworld i (emails ! i) = ExecFailed) \<longrightarrow>
        fst (CLIVerifier cworld schedule emails) = Inr (map (\<lambda>e. Some (unknown_result e)) emails)) \<and>
     ((\<forall>i e. isl (HTTP_VerifyEmail (world i e) e)) \<longrightarrow>
        (\<exists>resp. fst (FindEmails U dns (HTTPVerifier world schedule) s req) = Inr resp \<and>
           FoundEmails resp = [] \<and> TotalFound resp = 0 \<and>
           TotalChecked resp =
             length (snd (FindEmails U dns (HTTPVerifier world schedule) s req)))) \<and>
     ((\<forall>i e. cworld i e = ExecFailed) \<longrightarrow>
        (\<exists>resp. fst (FindEmails U dns (CLIVerifier cworld schedule) s req) = Inr resp \<and>
           FoundEmails resp = [] \<and> TotalFound resp = 0 \<and>
           TotalChecked resp =
             length (snd (FindEmails U dns (CLIVerifier cworld schedule) s req)))) \<and>
     (fst (FindEmails U dns v s req) = Inl err \<longrightarrow>
        err = panic_nil_pointer_dereference \<or> (\<exists>emails. fst (v emails) = Inl err))"
proof -
  have sch: "is_schedule n (schedule n)" for n
    using assms by blast
  have len: "length (schedule n) = n" for n
    using sch by (rule is_schedule_length)
  have 1: "\<not> isl (fst (HTTPVerifier world schedule emails))"
    "\<not> isl (fst (CLIVerifier cworld schedule emails))"
    by (simp_all add: HTTPVerifier_def CLIVerifier_def batch_never_Inl)
  have 2: "(\<forall>i<length emails. isl (HTTP_VerifyEmail (world i (emails ! i)) (emails ! i))) \<longrightarrow>
        fst (HTTPVerifier world schedule emails) = Inr (map (\<lambda>e. Some (unknown_result e)) emails)"
    using HTTPVerifier_all_fail[of emails schedule world] sch[of "length emails"] by simp
  have 3: "(\<forall>i<length emails. cworld i (emails ! i) = ExecFailed) \<longrightarrow>
        fst (CLIVerifier cworld schedule emails) = Inr (map (\<lambda>e. Some (unknown_result e)) emails)"
    using CLIVerifier_all_fail[of emails schedule cworld] sch[of "length emails"] by simp
  have 4: "\<exists>resp. fst (FindEmails U dns (HTTPVerifier world schedule) s req) = Inr resp \<and>
           FoundEmails resp = [] \<and> TotalFound resp = 0 \<and>
           TotalChecked resp = length (snd (FindEmails U dns (HTTPVerifier world schedule) s req))"
    if "\<forall>i e. isl (HTTP_VerifyEmail (world i e) e)"
  proof -
    have "HTTPVerifier world schedule es =
      (Inr (map (\<lambda>e. Some (unknown_result e)) es), map ((!) es) (schedule (length es)))" for es
      using that HTTPVerifier_all_fail[of es schedule world] sch[of "length es"] by simp
    from FindEmails_all_unknown[of "HTTPVerifier world schedule" schedule, OF this]
    show ?thesis by (simp add: len)
  qed
  have 5: "\<exists>resp. fst (FindEmails U dns (CLIVerifier cworld schedule) s req) = Inr resp \<and>
           FoundEmails resp = [] \<and> TotalFound resp = 0 \<and>
           TotalChecked resp = length (snd (FindEmails U dns (CLIVerifier cworld schedule) s req))"
    if "\<forall>i e. cworld i e = ExecFailed"
  proof -
    have "CLIVerifier cworld schedule es =
      (Inr (map (\<lambda>e. Some (unknown_result e)) es), map ((!) es) (schedule (length es)))" for es
      using that CLIVerifier_all_fail[of es schedule cworld] sch[of "length es"] by simp
    from FindEmails_all_unknown[of "CLIVerifier cworld schedule" schedule, OF this]
    show ?thesis by (simp add: len)
  qed
  have 6: "fst (FindEmails U dns v s req) = Inl err \<longrightarrow>
        err = panic_nil_pointer_dereference \<or> (\<exists>emails. fst (v emails) = Inl err)"
    using FindEmails_Inl by blast
  from 1 2 3 4 5 6 show ?thesis by blast
qed

text \<open>
  The oracle whose transport always fails, for the first two patterns of John Doe.
\<close>

theorem VerifyEmailsBatch_never_fails_witness:
  "is_schedule 2 (in_order 2) \<and>
   isl (HTTP_VerifyEmail (all_fail 0 ''john.doe@example.com'') ''john.doe@example.com'') \<and>
   isl (HTTP_VerifyEmail (all_fail 1 ''johndoe@example.com'') ''johndoe@example.com'') \<and>
   fst (HTTPVerifier all_fail in_order [''john.doe@example.com'', ''johndoe@example.com'']) =
     Inr [Some (unknown_result ''john.doe@example.com''),
          Some (unknown_result ''johndoe@example.com'')] \<and>
   \<not> isl (fst (FindEmails no_tables no_dns (HTTPVerifier all_fail in_order) (seeded_service 2) john_doe))"
proof -
  let ?emails = "[''john.doe@example.com'', ''johndoe@example.com'']"
  have s: "\<forall>n. is_schedule n (in_order n)"
    by (simp add: in_order_schedule)
  have f: "isl (HTTP_VerifyEmail (all_fail i e) e)" for i e
    by (simp add: all_fail_def HTTP_VerifyEmail_def)
  note t = VerifyEmailsBatch_never_fails[OF s, of all_fail ?emails _ no_tables no_dns "seeded_service 2" john_doe]
  from t f have a: "fst (HTTPVerifier all_fail in_order ?emails) =
      Inr (map (\<lambda>e. Some (unknown_result e)) ?emails)"
    by blast
  from t f obtain resp where
    "fst (FindEmails no_tables no_dns (HTTPVerifier all_fail in_order) (seeded_service 2) john_doe) = Inr resp"
    by blast
  then have b: "\<not> isl (fst (FindEmails no_tables no_dns (HTTPVerifier all_fail in_order) (seeded_service 2) john_doe))"
    by simp
  from s f a b show ?thesis by simp
qed


end
